theory Spec2Isabelle
  imports Main
begin

section \<open>The data-movement pipeline (pilot/control/data.py)\<close>

text \<open>
  The job object is the dictionary-like record that flows through the queues. A key
  that the code reads without a test is a field of the record; a key whose presence the
  code tests (\<open>'metaData' in job\<close>, \<open>'exitCode' in job\<close>,
  \<open>'transExitCode' in job\<close>) is an optional field. Logging is left out. The
  leading underscore of \<open>_call\<close>, \<open>_stage_in\<close>, \<open>_stage_out\<close> and
  \<open>_stage_out_all\<close> is dropped, since an Isabelle name cannot start with one.
\<close>

datatype error_kind = stage_in_failed | stage_out_failed | communication_failure | unknown_exception

datatype py_error = KeyError string | IndexError | OSError | ValueError

record subfile =
  sf_name :: string
  sf_file_guid :: string
  sf_file_size :: int

record filedict =
  fd_guid :: string
  fd_fsize :: int
  fd_adler32 :: string
  fd_surl :: string

record job =
  PandaID :: int
  workdir :: string
  state :: string
  stageout :: string
  inFiles :: string
  outFiles :: string
  scopeIn :: string
  ddmEndPointIn :: string
  scopeOut :: string
  ddmEndPointOut :: string
  scopeLog :: string
  logFile :: string
  logGUID :: string
  metaData :: "subfile list list option"
  exitCode :: "int option"
  transExitCode :: "int option"
  pilotErrorCodes :: "error_kind list"
  pilotErrorDiags :: "string list"
  fileinfodict :: "(string \<times> filedict) list option"

text \<open>
  \<open>metaData\<close> holds \<open>job['metaData']['files']['output']\<close>: one list of
  sub-files per output, of which the code reads element 0.
\<close>

subsection \<open>The subprocess runner\<close>

text \<open>
  What one child process lets the runner observe: whether \<open>Popen\<close> returns at all,
  the successive readings of \<open>args.graceful_stop.is_set()\<close> and the successive
  results of \<open>process.poll()\<close> (\<open>None\<close> while the child runs).
\<close>

record child =
  spawns :: bool
  stop_reads :: "nat \<Rightarrow> bool"
  poll_reads :: "nat \<Rightarrow> int option"

text \<open>
  \<open>for i in xrange(10): if graceful_stop.is_set(): breaker = True; terminate(); break;
  sleep(0.1)\<close>, started at reading \<open>k\<close>: the value of \<open>breaker\<close> and the index
  of the next reading.
\<close>

fun ticks :: "(nat \<Rightarrow> bool) \<Rightarrow> nat \<Rightarrow> nat \<Rightarrow> bool \<times> nat" where
  "ticks stp k 0 = (False, k)"
| "ticks stp k (Suc i) = (if stp k then (True, Suc k) else ticks stp (Suc k) i)"

text \<open>
  The \<open>while True\<close> loop of the runner, with fuel since a child that never exits and
  a stop signal that never comes keep it running: \<open>None\<close> is fuel exhausted,
  \<open>Some ec\<close> the value of \<open>exit_code\<close> when the loop is left (\<open>None\<close> after
  a cancellation, which kills the child without polling it).
\<close>

fun supervise :: "nat \<Rightarrow> child \<Rightarrow> nat \<Rightarrow> nat \<Rightarrow> int option option" where
  "supervise 0 c k n = None"
| "supervise (Suc fuel) c k n =
     (case ticks (stop_reads c) k 10 of
        (True, k') \<Rightarrow> Some None
      | (False, k') \<Rightarrow>
          (case poll_reads c n of
             Some ec \<Rightarrow> Some (Some ec)
           | None \<Rightarrow> supervise fuel c k' (Suc n)))"

definition call :: "nat \<Rightarrow> child \<Rightarrow> bool option" where
  "call fuel c =
     (if \<not> spawns c then Some False
      else (case supervise fuel c 0 0 of
              None \<Rightarrow> None
            | Some exit_code \<Rightarrow> Some (exit_code = Some 0)))"

text \<open>
  The child is seen to exit by itself with code \<open>ec\<close> at poll \<open>m\<close>: every earlier
  poll found it running, and none of the stop readings taken up to then was set.
\<close>

definition natural_exit :: "child \<Rightarrow> nat \<Rightarrow> int \<Rightarrow> bool" where
  "natural_exit c m ec \<longleftrightarrow>
     (\<forall>i<m. poll_reads c i = None) \<and> poll_reads c m = Some ec
     \<and> (\<forall>j<10 * (m + 1). \<not> stop_reads c j)"

definition stage_in_argv :: "job \<Rightarrow> string list" where
  "stage_in_argv j =
     [''/usr/bin/env'', ''rucio'', ''-v'', ''download'', ''--no-subdir'',
      ''--rse'', ddmEndPointIn j, scopeIn j @ '':'' @ inFiles j]"

definition stage_in :: "nat \<Rightarrow> child \<Rightarrow> job \<Rightarrow> bool option" where
  "stage_in fuel c j =
     (case call fuel c of
        None \<Rightarrow> None
      | Some r \<Rightarrow> (if \<not> r then Some False else Some True))"

subsection \<open>Python helpers\<close>

text \<open>
  \<open>x in s\<close> on two strings is the substring test; \<open>job['outFiles']\<close> is a
  comma-joined string (\<open>prepare_log\<close> splits it), so the membership test of the
  stage-out loop is this one.
\<close>

fun startswith :: "string \<Rightarrow> string \<Rightarrow> bool" where
  "startswith s [] = True"
| "startswith [] (p # ps) = False"
| "startswith (c # cs) (p # ps) = (c = p \<and> startswith cs ps)"

fun str_in :: "string \<Rightarrow> string \<Rightarrow> bool" where
  "str_in x [] = (x = [])"
| "str_in x (c # cs) = (startswith (c # cs) x \<or> str_in x cs)"

text \<open>
  A dictionary whose iteration order matters is an association list in insertion order:
  assigning to a key that is present keeps its place.
\<close>

fun dict_set :: "('k \<times> 'v) list \<Rightarrow> 'k \<Rightarrow> 'v \<Rightarrow> ('k \<times> 'v) list" where
  "dict_set [] k v = [(k, v)]"
| "dict_set ((k', v') # kvs) k v =
     (if k' = k then (k, v) # kvs else (k', v') # dict_set kvs k v)"

definition first_endpoint :: "string \<Rightarrow> string" where
  "first_endpoint s = takeWhile (\<lambda>c. c \<noteq> CHR '','') s"

subsection \<open>Error codes\<close>

text \<open>
  Modelled from the spec: \<open>pilot.common.errorcodes.ErrorCodes\<close> is not among the
  sources. \<open>errors.add_error_code(code)\<close> returns the pair of lists that the caller
  stores in \<open>pilotErrorCodes\<close> and \<open>pilotErrorDiags\<close>; the spec has the job tagged
  with the error kind and both lists non-empty. The table of messages is the parameter
  \<open>msg\<close>.
\<close>

definition add_error_code :: "(error_kind \<Rightarrow> string) \<Rightarrow> error_kind \<Rightarrow> error_kind list \<times> string list" where
  "add_error_code msg k = ([k], [msg k])"

subsection \<open>Stage-out of one file\<close>

record descriptor =
  d_scope :: string
  d_name :: string
  d_guid :: string
  d_bytes :: int

text \<open>
  \<open>rucio_upload.json\<close> in the working directory when \<open>_stage_out\<close> looks for it:
  absent, not parseable by \<open>json.load\<close>, or a mapping from \<open>scope:name\<close> to the
  fields of that file.
\<close>

datatype summary_file = No_such_file | Malformed | Parsed "(string \<times> (string \<times> string) list) list"

record upload =
  proc :: child
  summary :: summary_file

definition stage_out_argv :: "descriptor \<Rightarrow> job \<Rightarrow> string list" where
  "stage_out_argv outfile j =
     [''/usr/bin/env'', ''rucio'', ''-v'', ''upload'', ''--summary'', ''--no-register'',
      ''--guid'', d_guid outfile, ''--rse'', first_endpoint (ddmEndPointOut j),
      ''--scope'', d_scope outfile, d_name outfile]"

text \<open>
  \<open>_stage_out\<close> repeats the runner's loop inline. Its result is Python's \<open>None\<close>
  (inner \<open>None\<close>) or the parsed summary; the outer \<open>None\<close> is fuel exhausted.
\<close>

definition stage_out :: "nat \<Rightarrow> upload \<Rightarrow> (py_error + (string \<times> (string \<times> string) list) list option) option" where
  "stage_out fuel u =
     (if \<not> spawns (proc u) then Some (Inr None)
      else (case supervise fuel (proc u) 0 0 of
              None \<Rightarrow> None
            | Some None \<Rightarrow> Some (Inr None)
            | Some (Some exit_code) \<Rightarrow>
                (case summary u of
                   No_such_file \<Rightarrow> Some (Inr None)
                 | Malformed \<Rightarrow> Some (Inl ValueError)
                 | Parsed s \<Rightarrow> Some (Inr (Some s)))))"

text \<open>
  \<open>summary[key]['pfn']\<close>, then \<open>summary[key]['adler32']\<close>; a missing key raises.
\<close>

definition summary_entry :: "(string \<times> (string \<times> string) list) list \<Rightarrow> string \<Rightarrow> py_error + string \<times> string" where
  "summary_entry s key =
     (case map_of s key of
        None \<Rightarrow> Inl (KeyError key)
      | Some e \<Rightarrow>
          (case map_of e ''pfn'' of
             None \<Rightarrow> Inl (KeyError ''pfn'')
           | Some pfn \<Rightarrow>
               (case map_of e ''adler32'' of
                  None \<Rightarrow> Inl (KeyError ''adler32'')
                | Some a \<Rightarrow> Inr (pfn, a))))"

subsection \<open>Stage-out of a job\<close>

text \<open>
  \<open>prepare_log\<close> writes the tarball and returns its descriptor. Of the tarball only
  the size is modelled; it comes from the environment, \<open>None\<close> when writing it or
  reading its size raised.
\<close>

record world =
  tarball_bytes :: "int option"
  uploads :: "nat \<Rightarrow> upload"

definition prepare_log :: "world \<Rightarrow> job \<Rightarrow> py_error + descriptor" where
  "prepare_log w j =
     (case tarball_bytes w of
        None \<Rightarrow> Inl OSError
      | Some b \<Rightarrow> Inr \<lparr>d_scope = scopeLog j, d_name = logFile j, d_guid = logGUID j, d_bytes = b\<rparr>)"

text \<open>The loop over \<open>job['metaData']['files']['output']\<close> that fills \<open>outputs\<close>.\<close>

fun report_outputs :: "job \<Rightarrow> subfile list list \<Rightarrow> (string \<times> descriptor) list \<Rightarrow> py_error + (string \<times> descriptor) list" where
  "report_outputs j [] outputs = Inr outputs"
| "report_outputs j (f # fs) outputs =
     (case f of
        [] \<Rightarrow> Inl IndexError
      | sf # _ \<Rightarrow>
          report_outputs j fs
            (dict_set outputs (sf_name sf)
               \<lparr>d_scope = scopeOut j, d_name = sf_name sf, d_guid = sf_file_guid sf,
                d_bytes = sf_file_size sf\<rparr>))"

text \<open>
  The variables of the transfer loop: \<open>fileinfodict\<close>, \<open>failed\<close>, and the argument
  vectors handed to \<open>Popen\<close> so far. The \<open>n\<close>-th upload of a pass observes
  \<open>uploads w n\<close>.
\<close>

record transfers =
  t_fileinfodict :: "(string \<times> filedict) list"
  t_failed :: bool
  t_commands :: "string list list"

fun transfer_loop :: "nat \<Rightarrow> (nat \<Rightarrow> upload) \<Rightarrow> job \<Rightarrow> (string \<times> descriptor) list \<Rightarrow> transfers \<Rightarrow> (py_error + transfers) option" where
  "transfer_loop fuel ups j [] acc = Some (Inr acc)"
| "transfer_loop fuel ups j ((outfile, d) # rest) acc =
     (if \<not> str_in outfile (outFiles j) then transfer_loop fuel ups j rest acc
      else
        (case stage_out fuel (ups (length (t_commands acc))) of
           None \<Rightarrow> None
         | Some (Inl e) \<Rightarrow> Some (Inl e)
         | Some (Inr None) \<Rightarrow>
             transfer_loop fuel ups j rest
               (acc\<lparr>t_commands := t_commands acc @ [stage_out_argv d j], t_failed := True\<rparr>)
         | Some (Inr (Some s)) \<Rightarrow>
             (case summary_entry s (d_scope d @ '':'' @ d_name d) of
                Inl e \<Rightarrow> Some (Inl e)
              | Inr (pfn, adler32) \<Rightarrow>
                  transfer_loop fuel ups j rest
                    (acc\<lparr>t_commands := t_commands acc @ [stage_out_argv d j],
                        t_fileinfodict :=
                          dict_set (t_fileinfodict acc) (d_name d)
                            \<lparr>fd_guid = d_guid d, fd_fsize = d_bytes d,
                             fd_adler32 = adler32, fd_surl = pfn\<rparr>\<rparr>))))"

definition build_outputs :: "world \<Rightarrow> job \<Rightarrow> py_error + (string \<times> descriptor) list" where
  "build_outputs w j =
     (case (if stageout j = ''log'' then Inr []
            else (case metaData j of
                    Some fs \<Rightarrow> report_outputs j fs []
                  | None \<Rightarrow> Inr [])) of
        Inl e \<Rightarrow> Inl e
      | Inr outputs \<Rightarrow>
          (case prepare_log w j of
             Inl e \<Rightarrow> Inl e
           | Inr logd \<Rightarrow> Inr (dict_set outputs (scopeLog j @ '':'' @ logFile j) logd)))"

text \<open>
  \<open>_stage_out_all\<close>: the result of the call, the job as it leaves it, and the upload
  commands it ran.
\<close>

definition stage_out_all :: "nat \<Rightarrow> world \<Rightarrow> (error_kind \<Rightarrow> string) \<Rightarrow> job \<Rightarrow> (py_error + bool \<times> job \<times> string list list) option" where
  "stage_out_all fuel w msg j =
     (case build_outputs w j of
        Inl e \<Rightarrow> Some (Inl e)
      | Inr outputs \<Rightarrow>
          (case transfer_loop fuel (uploads w) j outputs
                  \<lparr>t_fileinfodict = [], t_failed = False, t_commands = []\<rparr> of
             None \<Rightarrow> None
           | Some (Inl e) \<Rightarrow> Some (Inl e)
           | Some (Inr acc) \<Rightarrow>
               (if t_failed acc then
                  Some (Inr (False,
                    j\<lparr>pilotErrorCodes := fst (add_error_code msg stage_out_failed),
                      pilotErrorDiags := snd (add_error_code msg stage_out_failed),
                      state := ''failed''\<rparr>,
                    t_commands acc))
                else
                  Some (Inr (True,
                    j\<lparr>fileinfodict := Some (t_fileinfodict acc), state := ''finished''\<rparr>,
                    t_commands acc)))))"

subsection \<open>Queues and workers\<close>

text \<open>
  A queue holds references to job objects, and a worker goes on mutating a job after
  it has put it on a queue (\<open>copytool_in\<close> does), so the jobs live in a store and the
  queues hold their addresses. \<open>sent_states\<close> and \<open>commands\<close> record what the
  workers did to the outside: the state notifications and the child processes started.
\<close>

record pipeline =
  jobs :: "nat \<Rightarrow> job"
  data_in :: "nat list"
  data_out :: "nat list"
  finished_data_in :: "nat list"
  failed_data_in :: "nat list"
  finished_data_out :: "nat list"
  failed_data_out :: "nat list"
  finished_jobs :: "nat list"
  failed_jobs :: "nat list"
  sent_states :: "(int \<times> string) list"
  commands :: "string list list"

text \<open>
  Modelled from the spec: \<open>pilot.control.job.send_state\<close> is not among the sources.
  The spec has it notify the state to the server, synchronously and best-effort, a
  failure being swallowed: the job is not touched.
\<close>

definition send_state :: "pipeline \<Rightarrow> job \<Rightarrow> string \<Rightarrow> pipeline" where
  "send_state p j st = p\<lparr>sent_states := sent_states p @ [(PandaID j, st)]\<rparr>"

definition update_job :: "pipeline \<Rightarrow> nat \<Rightarrow> (job \<Rightarrow> job) \<Rightarrow> pipeline" where
  "update_job p r f = p\<lparr>jobs := (jobs p)(r := f (jobs p r))\<rparr>"

text \<open>
  One turn of the loop of \<open>copytool_in\<close>, entered with the stop signal not set. An
  empty queue is \<open>Queue.Empty\<close>, which the loop swallows.
\<close>

definition copytool_in_body :: "nat \<Rightarrow> child \<Rightarrow> (error_kind \<Rightarrow> string) \<Rightarrow> pipeline \<Rightarrow> pipeline option" where
  "copytool_in_body fuel c msg p =
     (case data_in p of
        [] \<Rightarrow> Some p
      | r # rest \<Rightarrow>
          (let p1 = send_state (p\<lparr>data_in := rest\<rparr>) (jobs p r) ''running'';
               p2 = p1\<lparr>commands := commands p1 @ [stage_in_argv (jobs p1 r)]\<rparr>
           in (case stage_in fuel c (jobs p2 r) of
                 None \<Rightarrow> None
               | Some True \<Rightarrow> Some (p2\<lparr>finished_data_in := finished_data_in p2 @ [r]\<rparr>)
               | Some False \<Rightarrow>
                   (let p3 = p2\<lparr>failed_data_in := failed_data_in p2 @ [r]\<rparr>;
                        p4 = update_job p3 r
                               (\<lambda>j. j\<lparr>pilotErrorCodes := fst (add_error_code msg stage_in_failed),
                                      pilotErrorDiags := snd (add_error_code msg stage_in_failed)\<rparr>)
                    in Some (update_job p4 r (\<lambda>j. j\<lparr>state := ''failed''\<rparr>))))))"

text \<open>
  The loop of each worker. \<open>stp n\<close> is the reading of the stop signal before turn \<open>n\<close>;
  the fuel bounds the turns, and each turn passes \<open>cfuel\<close> to the runner.
\<close>

fun copytool_in :: "nat \<Rightarrow> nat \<Rightarrow> (nat \<Rightarrow> bool) \<Rightarrow> (nat \<Rightarrow> child) \<Rightarrow> (error_kind \<Rightarrow> string) \<Rightarrow> nat \<Rightarrow> pipeline \<Rightarrow> pipeline option" where
  "copytool_in 0 cfuel stp cs msg n p = None"
| "copytool_in (Suc fuel) cfuel stp cs msg n p =
     (if stp n then Some p
      else (case copytool_in_body cfuel (cs n) msg p of
              None \<Rightarrow> None
            | Some p' \<Rightarrow> copytool_in fuel cfuel stp cs msg (Suc n) p'))"

definition copytool_out_body :: "nat \<Rightarrow> world \<Rightarrow> (error_kind \<Rightarrow> string) \<Rightarrow> pipeline \<Rightarrow> (py_error + pipeline) option" where
  "copytool_out_body fuel w msg p =
     (case data_out p of
        [] \<Rightarrow> Some (Inr p)
      | r # rest \<Rightarrow>
          (case stage_out_all fuel w msg (jobs p r) of
             None \<Rightarrow> None
           | Some (Inl e) \<Rightarrow> Some (Inl e)
           | Some (Inr (ok, j', cmds)) \<Rightarrow>
               (let p1 = p\<lparr>data_out := rest, jobs := (jobs p)(r := j'),
                          commands := commands p @ cmds\<rparr>
                in if ok then Some (Inr (p1\<lparr>finished_data_out := finished_data_out p1 @ [r]\<rparr>))
                   else Some (Inr (p1\<lparr>failed_data_out := failed_data_out p1 @ [r]\<rparr>)))))"

fun copytool_out :: "nat \<Rightarrow> nat \<Rightarrow> (nat \<Rightarrow> bool) \<Rightarrow> (nat \<Rightarrow> world) \<Rightarrow> (error_kind \<Rightarrow> string) \<Rightarrow> nat \<Rightarrow> pipeline \<Rightarrow> (py_error + pipeline) option" where
  "copytool_out 0 cfuel stp ws msg n p = None"
| "copytool_out (Suc fuel) cfuel stp ws msg n p =
     (if stp n then Some (Inr p)
      else (case copytool_out_body cfuel (ws n) msg p of
              None \<Rightarrow> None
            | Some (Inl e) \<Rightarrow> Some (Inl e)
            | Some (Inr p') \<Rightarrow> copytool_out fuel cfuel stp ws msg (Suc n) p'))"

subsection \<open>The queue monitor\<close>

text \<open>The three parts of one pass of \<open>queue_monitoring\<close>, in the order of the source.\<close>

definition monitor_failed_data_in :: "nat \<Rightarrow> world \<Rightarrow> (error_kind \<Rightarrow> string) \<Rightarrow> pipeline \<Rightarrow> (py_error + pipeline) option" where
  "monitor_failed_data_in fuel w msg p =
     (case failed_data_in p of
        [] \<Rightarrow> Some (Inr p)
      | r # rest \<Rightarrow>
          (case stage_out_all fuel w msg ((jobs p r)\<lparr>stageout := ''log''\<rparr>) of
             None \<Rightarrow> None
           | Some (Inl e) \<Rightarrow> Some (Inl e)
           | Some (Inr (ok, j', cmds)) \<Rightarrow>
               (let p1 = p\<lparr>failed_data_in := rest, jobs := (jobs p)(r := j'),
                          commands := commands p @ cmds\<rparr>
                in if \<not> ok then Some (Inr (p1\<lparr>failed_data_out := failed_data_out p1 @ [r]\<rparr>))
                   else Some (Inr (p1\<lparr>failed_jobs := failed_jobs p1 @ [r]\<rparr>)))))"

definition monitor_finished_data_out :: "pipeline \<Rightarrow> pipeline" where
  "monitor_finished_data_out p =
     (case finished_data_out p of
        [] \<Rightarrow> p
      | r # rest \<Rightarrow>
          (let p1 = p\<lparr>finished_data_out := rest\<rparr>;
               j = jobs p1 r;
               exit_code = (case exitCode j of Some e \<Rightarrow> e | None \<Rightarrow> 0)
           in if (case transExitCode j of None \<Rightarrow> False | Some t \<Rightarrow> t = 0) \<and> exit_code = 0
              then p1\<lparr>finished_jobs := finished_jobs p1 @ [r]\<rparr>
              else p1\<lparr>failed_jobs := failed_jobs p1 @ [r]\<rparr>))"

definition monitor_failed_data_out :: "pipeline \<Rightarrow> pipeline" where
  "monitor_failed_data_out p =
     (case failed_data_out p of
        [] \<Rightarrow> p
      | r # rest \<Rightarrow> p\<lparr>failed_data_out := rest, failed_jobs := failed_jobs p @ [r]\<rparr>)"

definition queue_monitoring_pass :: "nat \<Rightarrow> world \<Rightarrow> (error_kind \<Rightarrow> string) \<Rightarrow> pipeline \<Rightarrow> (py_error + pipeline) option" where
  "queue_monitoring_pass fuel w msg p =
     (case monitor_failed_data_in fuel w msg p of
        None \<Rightarrow> None
      | Some (Inl e) \<Rightarrow> Some (Inl e)
      | Some (Inr p1) \<Rightarrow> Some (Inr (monitor_failed_data_out (monitor_finished_data_out p1))))"

text \<open>
  The loop reads the stop signal three times a turn: the loop condition, the
  one-second \<open>wait\<close>, and \<open>is_set\<close> again when the wait timed out.
\<close>

fun queue_monitoring :: "nat \<Rightarrow> nat \<Rightarrow> (nat \<Rightarrow> bool) \<Rightarrow> (nat \<Rightarrow> world) \<Rightarrow> (error_kind \<Rightarrow> string) \<Rightarrow> nat \<Rightarrow> pipeline \<Rightarrow> (py_error + pipeline) option" where
  "queue_monitoring 0 cfuel stp ws msg n p = None"
| "queue_monitoring (Suc fuel) cfuel stp ws msg n p =
     (if stp (3 * n) then Some (Inr p)
      else if stp (3 * n + 1) \<or> stp (3 * n + 2) then Some (Inr p)
      else (case queue_monitoring_pass cfuel (ws n) msg p of
              None \<Rightarrow> None
            | Some (Inl e) \<Rightarrow> Some (Inl e)
            | Some (Inr p') \<Rightarrow> queue_monitoring fuel cfuel stp ws msg (Suc n) p'))"

section \<open>The pilot state (pilot/util/auxiliary.py)\<close>

text \<open>
  \<open>os.environ\<close> is a map; the job is optional (\<open>job=None\<close>), and a job object is
  truthy.
\<close>

definition get_pilot_state :: "(string \<rightharpoonup> string) \<Rightarrow> job option \<Rightarrow> string" where
  "get_pilot_state environ jb =
     (case jb of
        Some j \<Rightarrow> state j
      | None \<Rightarrow> (case environ ''PILOT_JOB_STATE'' of Some s \<Rightarrow> s | None \<Rightarrow> ''unknown''))"

definition set_pilot_state :: "(string \<rightharpoonup> string) \<Rightarrow> job option \<Rightarrow> string \<Rightarrow> (string \<rightharpoonup> string) \<times> job option" where
  "set_pilot_state environ jb st =
     (let environ' = environ(''PILOT_JOB_STATE'' \<mapsto> st)
      in (case jb of
            None \<Rightarrow> (environ', None)
          | Some j \<Rightarrow>
              (if state j \<noteq> ''failed'' then (environ', Some (j\<lparr>state := st\<rparr>))
               else (environ', Some j))))"

section \<open>The communication manager (communicationmanager.py)\<close>

text \<open>
  Values that the code tests with \<open>is False\<close>, \<open>== 0\<close> or for truth are Python
  values; a payload that the manager only carries is a string.
\<close>

datatype pyval = PyNone | PyBool bool | PyInt int

datatype exn = CommunicationFailure string | PluginException string

record response =
  status :: pyval
  content :: "string option"
  exception :: "exn option"

text \<open>\<open>x == 0\<close> holds of \<open>0\<close> and of \<open>False\<close>; \<open>x is False\<close> of \<open>False\<close> only.\<close>

definition py_eq_zero :: "pyval \<Rightarrow> bool" where
  "py_eq_zero v = (case v of PyInt i \<Rightarrow> i = 0 | PyBool b \<Rightarrow> \<not> b | PyNone \<Rightarrow> False)"

definition is_False :: "pyval \<Rightarrow> bool" where
  "is_False v = (case v of PyBool b \<Rightarrow> \<not> b | _ \<Rightarrow> False)"

datatype request_kind = RequestJobs | UpdateJobs | RequestEvents | UpdateEvents

datatype attr = AInt int | AStr string

text \<open>
  A request: its type, its other attributes, and the three attributes the manager works
  with. A post-hook is a callback of the client, named by a number; a call of it is what
  the manager's state records in \<open>hook_calls\<close>.
\<close>

record request =
  request_type :: request_kind
  attrs :: "(string \<times> attr) list"
  post_hook :: "nat option"
  response :: "response option"
  abort :: bool

definition CommunicationRequest :: "request_kind \<Rightarrow> (string \<times> attr) list \<Rightarrow> nat option \<Rightarrow> request" where
  "CommunicationRequest ty as hook =
     \<lparr>request_type = ty, attrs = as, post_hook = hook, response = None, abort = False\<rparr>"

datatype queue_name =
    Q_request_get_jobs | Q_update_jobs | Q_request_get_events | Q_update_events
  | Q_processing_get_jobs | Q_processing_update_jobs
  | Q_processing_get_events | Q_processing_update_events

text \<open>
  The client and the manager share a request object: the client polls the
  \<open>response\<close> that the manager sets. So the requests live in a store, \<open>reqs\<close>, and a
  queue holds addresses; \<open>allocated\<close> counts the requests created.
\<close>

record manager =
  queues :: "queue_name \<Rightarrow> nat list"
  stop_event :: bool
  reqs :: "nat \<Rightarrow> request"
  allocated :: nat
  hook_calls :: "(nat \<times> response) list"

definition queue_limits :: "queue_name \<Rightarrow> nat option" where
  "queue_limits q =
     (case q of
        Q_request_get_jobs \<Rightarrow> None
      | Q_update_jobs \<Rightarrow> None
      | Q_request_get_events \<Rightarrow> None
      | Q_update_events \<Rightarrow> None
      | Q_processing_get_jobs \<Rightarrow> Some 1
      | Q_processing_update_jobs \<Rightarrow> Some 1
      | Q_processing_get_events \<Rightarrow> Some 1
      | Q_processing_update_events \<Rightarrow> Some 1)"

definition init_manager :: manager where
  "init_manager =
     \<lparr>queues = (\<lambda>q. []), stop_event = False,
      reqs = (\<lambda>r. CommunicationRequest RequestJobs [] None),
      allocated = 0, hook_calls = []\<rparr>"

definition is_stop :: "manager \<Rightarrow> bool" where
  "is_stop m = stop_event m"

definition stop :: "manager \<Rightarrow> manager" where
  "stop m = (if \<not> is_stop m then m\<lparr>stop_event := True\<rparr> else m)"

definition put :: "manager \<Rightarrow> queue_name \<Rightarrow> nat \<Rightarrow> manager" where
  "put m q r = m\<lparr>queues := (queues m)(q := queues m q @ [r])\<rparr>"

definition new_request :: "manager \<Rightarrow> request \<Rightarrow> nat \<times> manager" where
  "new_request m req =
     (allocated m, m\<lparr>reqs := (reqs m)(allocated m := req), allocated := Suc (allocated m)\<rparr>)"

subsection \<open>The public operations\<close>

text \<open>
  A public operation returns a value, raises, or is left waiting for the response of
  the request it queued; \<open>poll_response\<close> is one turn of that wait.
\<close>

datatype reply = Returned "string option" | Raised exn | Waiting nat

definition poll_response :: "manager \<Rightarrow> nat \<Rightarrow> reply" where
  "poll_response m r =
     (case response (reqs m r) of
        None \<Rightarrow> Waiting r
      | Some resp \<Rightarrow>
          (case exception resp of
             Some e \<Rightarrow> Raised e
           | None \<Rightarrow> (if is_False (status resp) then Returned None else Returned (content resp))))"

definition submit :: "manager \<Rightarrow> queue_name \<Rightarrow> request \<Rightarrow> reply \<times> manager" where
  "submit m q req =
     (let (r, m1) = new_request m req;
          m2 = put m1 q r
      in if post_hook (reqs m2 r) \<noteq> None then (Returned None, m2) else (Waiting r, m2))"

definition get_jobs :: "int \<Rightarrow> nat option \<Rightarrow> (string \<times> attr) list \<Rightarrow> manager \<Rightarrow> reply \<times> manager" where
  "get_jobs njobs hook args m =
     (if is_stop m then (Returned None, m)
      else submit m Q_request_get_jobs
             (CommunicationRequest RequestJobs (dict_set args ''num_jobs'' (AInt njobs)) hook))"

definition update_jobs :: "string \<Rightarrow> nat option \<Rightarrow> manager \<Rightarrow> reply \<times> manager" where
  "update_jobs jobs_upd hook m =
     (if is_stop m then (Returned None, m)
      else submit m Q_update_jobs
             (CommunicationRequest UpdateJobs [(''jobs'', AStr jobs_upd)] hook))"

record es_job =
  es_PandaID :: int
  es_jobsetID :: int
  es_taskID :: int

definition get_event_ranges :: "int \<Rightarrow> nat option \<Rightarrow> es_job option \<Rightarrow> manager \<Rightarrow> reply \<times> manager" where
  "get_event_ranges num_event_ranges hook jb m =
     (if is_stop m then (Returned None, m)
      else (case jb of
              None \<Rightarrow>
                (Raised (CommunicationFailure ''get events failed because job info missing''), m)
            | Some j \<Rightarrow>
                submit m Q_request_get_events
                  (CommunicationRequest RequestEvents
                     [(''num_event_ranges'', AInt num_event_ranges),
                      (''jobid'', AInt (es_PandaID j)), (''jobsetid'', AInt (es_jobsetID j)),
                      (''taskid'', AInt (es_taskID j)), (''num_ranges'', AInt num_event_ranges)]
                     hook)))"

definition update_events :: "string \<Rightarrow> nat option \<Rightarrow> manager \<Rightarrow> reply \<times> manager" where
  "update_events upd hook m =
     (if is_stop m then (Returned None, m)
      else submit m Q_update_events
             (CommunicationRequest UpdateEvents [(''update_events'', AStr upd)] hook))"

subsection \<open>The dispatch loop\<close>

text \<open>
  The communicator plugin is outside the sources: its pre-checks and handlers are
  parameters, which may answer differently from one pass (\<open>t\<close>) to the next.
\<close>

record entry =
  pre_check :: "nat \<Rightarrow> response"
  handler :: "nat \<Rightarrow> request \<Rightarrow> response"
  next_queue :: "queue_name option"
  process_req_post_hook :: bool

record communicator =
  pre_check_get_jobs :: "nat \<Rightarrow> response"
  comm_request_get_jobs :: "nat \<Rightarrow> request \<Rightarrow> response"
  pre_check_get_events :: "nat \<Rightarrow> response"
  comm_request_get_events :: "nat \<Rightarrow> request \<Rightarrow> response"
  pre_check_update_jobs :: "nat \<Rightarrow> response"
  comm_update_jobs :: "nat \<Rightarrow> request \<Rightarrow> response"
  pre_check_update_events :: "nat \<Rightarrow> response"
  comm_update_events :: "nat \<Rightarrow> request \<Rightarrow> response"
  check_get_jobs_status :: "nat \<Rightarrow> response"
  comm_get_jobs :: "nat \<Rightarrow> request \<Rightarrow> response"
  check_get_events_status :: "nat \<Rightarrow> response"
  comm_get_events :: "nat \<Rightarrow> request \<Rightarrow> response"

definition get_processor :: "communicator \<Rightarrow> (queue_name \<times> entry) list" where
  "get_processor c =
     [(Q_request_get_jobs,
         \<lparr>pre_check = pre_check_get_jobs c, handler = comm_request_get_jobs c,
          next_queue = Some Q_processing_get_jobs, process_req_post_hook = False\<rparr>),
      (Q_request_get_events,
         \<lparr>pre_check = pre_check_get_events c, handler = comm_request_get_events c,
          next_queue = Some Q_processing_get_events, process_req_post_hook = False\<rparr>),
      (Q_update_jobs,
         \<lparr>pre_check = pre_check_update_jobs c, handler = comm_update_jobs c,
          next_queue = None, process_req_post_hook = True\<rparr>),
      (Q_update_events,
         \<lparr>pre_check = pre_check_update_events c, handler = comm_update_events c,
          next_queue = None, process_req_post_hook = True\<rparr>),
      (Q_processing_get_jobs,
         \<lparr>pre_check = check_get_jobs_status c, handler = comm_get_jobs c,
          next_queue = None, process_req_post_hook = True\<rparr>),
      (Q_processing_get_events,
         \<lparr>pre_check = check_get_events_status c, handler = comm_get_events c,
          next_queue = None, process_req_post_hook = True\<rparr>)]"

text \<open>\<open>can_process_request\<close>, given the entry \<open>processor[process_type]\<close>.\<close>

definition can_process_request :: "manager \<Rightarrow> entry \<Rightarrow> queue_name \<Rightarrow> bool" where
  "can_process_request m e process_type =
     (if queues m process_type = [] then False
      else (case next_queue e of
              None \<Rightarrow> True
            | Some nq \<Rightarrow>
                (case queue_limits nq of
                   None \<Rightarrow> True
                 | Some l \<Rightarrow> (if length (queues m nq) < l then True else False))))"

definition abort_request :: "request \<Rightarrow> request" where
  "abort_request req =
     req\<lparr>abort := True,
         response := Some \<lparr>status = PyNone, content = None,
                           exception = Some (CommunicationFailure
                             ''Communication manager is stopping, abort this request'')\<rparr>\<rparr>"

text \<open>\<open>while not queue.empty(): req = queue.get(); ...\<close> on the queue of an entry.\<close>

fun drain :: "manager \<Rightarrow> queue_name \<Rightarrow> nat list \<Rightarrow> manager" where
  "drain m q [] = m\<lparr>queues := (queues m)(q := [])\<rparr>"
| "drain m q (r # rs) =
     drain (m\<lparr>queues := (queues m)(q := rs), reqs := (reqs m)(r := abort_request (reqs m r))\<rparr>) q rs"

definition set_response :: "manager \<Rightarrow> nat \<Rightarrow> response \<Rightarrow> manager" where
  "set_response m r res = m\<lparr>reqs := (reqs m)(r := (reqs m r)\<lparr>response := Some res\<rparr>)\<rparr>"

text \<open>
  The body of \<open>for process_type in processor\<close> for one entry, on the pair of
  \<open>has_req\<close> and the manager. The stop signal belongs to other threads too:
  \<open>stop_now\<close> says that one of them called \<open>stop()\<close> since the manager last read the
  signal. \<open>can_process_request\<close> has found the queue non-empty and only this loop takes
  requests out, so \<open>get\<close> returns at once.
\<close>

definition run_entry :: "bool \<Rightarrow> nat \<Rightarrow> queue_name \<times> entry \<Rightarrow> bool \<times> manager \<Rightarrow> bool \<times> manager" where
  "run_entry stop_now t pe hm =
     (let process_type = fst pe; e = snd pe; has_req = fst hm;
          m = (if stop_now then stop (snd hm) else snd hm)
      in if is_stop m then (has_req, drain m process_type (queues m process_type))
         else if can_process_request m e process_type then
           (if \<not> py_eq_zero (status (pre_check e t)) then (has_req, m)
            else (case queues m process_type of
                    [] \<Rightarrow> (True, m)
                  | r # rest \<Rightarrow>
                      (let m1 = m\<lparr>queues := (queues m)(process_type := rest)\<rparr>;
                           res = handler e t (reqs m1 r)
                       in if is_False (status res) then (True, set_response m1 r res)
                          else
                            (let m2 = (case next_queue e of
                                         Some nq \<Rightarrow> put m1 nq r
                                       | None \<Rightarrow> set_response m1 r res)
                             in if process_req_post_hook e then
                                  (case post_hook (reqs m2 r) of
                                     Some h \<Rightarrow> (True, m2\<lparr>hook_calls := hook_calls m2 @ [(h, res)]\<rparr>)
                                   | None \<Rightarrow> (True, m2))
                                else (True, m2)))))
         else (has_req, m))"

text \<open>One pass over the table; \<open>sig i\<close> is \<open>stop_now\<close> for the \<open>i\<close>-th reading of the pass.\<close>

fun run_entries :: "(nat \<Rightarrow> bool) \<Rightarrow> nat \<Rightarrow> nat \<Rightarrow> (queue_name \<times> entry) list \<Rightarrow> bool \<times> manager \<Rightarrow> bool \<times> manager" where
  "run_entries sig t i [] hm = hm"
| "run_entries sig t i (pe # pes) hm = run_entries sig t (Suc i) pes (run_entry (sig i) t pe hm)"

text \<open>
  The \<open>while True\<close> loop of \<open>run\<close>, with fuel: it goes on for as long as requests come
  or the stop signal stays away. \<open>sigs t\<close> are the signals of pass \<open>t\<close>, the last of
  them for the reading that ends the pass.
\<close>

fun run_loop :: "nat \<Rightarrow> (nat \<Rightarrow> nat \<Rightarrow> bool) \<Rightarrow> (queue_name \<times> entry) list \<Rightarrow> nat \<Rightarrow> manager \<Rightarrow> manager option" where
  "run_loop 0 sigs processor t m = None"
| "run_loop (Suc fuel) sigs processor t m =
     (let hm = run_entries (sigs t) t 0 processor (False, m)
      in if \<not> fst hm then
           (let m1 = (if sigs t (length processor) then stop (snd hm) else snd hm)
            in if is_stop m1 then Some m1 else run_loop fuel sigs processor (Suc t) m1)
         else run_loop fuel sigs processor (Suc t) (snd hm))"

definition run :: "nat \<Rightarrow> (nat \<Rightarrow> nat \<Rightarrow> bool) \<Rightarrow> communicator \<Rightarrow> manager \<Rightarrow> manager option" where
  "run fuel sigs c m = run_loop fuel sigs (get_processor c) 0 m"

text \<open>
  The states the manager can be in: it starts as \<open>__init__\<close> leaves it, clients call the
  public operations and \<open>stop\<close>, and the dispatch loop handles one entry of its table at
  a time.
\<close>

inductive reachable :: "communicator \<Rightarrow> manager \<Rightarrow> bool" for c :: communicator where
  r_init: "reachable c init_manager"
| r_get_jobs: "reachable c m \<Longrightarrow> reachable c (snd (get_jobs n hook args m))"
| r_update_jobs: "reachable c m \<Longrightarrow> reachable c (snd (update_jobs upd hook m))"
| r_get_event_ranges: "reachable c m \<Longrightarrow> reachable c (snd (get_event_ranges n hook jb m))"
| r_update_events: "reachable c m \<Longrightarrow> reachable c (snd (update_events upd hook m))"
| r_stop: "reachable c m \<Longrightarrow> reachable c (stop m)"
| r_entry: "reachable c m \<Longrightarrow> pe \<in> set (get_processor c) \<Longrightarrow>
            reachable c (snd (run_entry stop_now t pe (has_req, m)))"

section \<open>Scenarios\<close>

text \<open>
  The jobs of the specification's seed scenarios, and small environments to run them in:
  a child that has exited with a given code when it is first polled, an upload summary,
  and a pipeline whose queues are empty.
\<close>

definition job_101 :: job where
  "job_101 =
     \<lparr>PandaID = 101, workdir = ''/w/101'', state = ''running'', stageout = ''all'',
      inFiles = ''a.root,b.root'', outFiles = '''', scopeIn = ''s'', ddmEndPointIn = ''EP1'',
      scopeOut = ''s'', ddmEndPointOut = ''EP2'', scopeLog = ''s'', logFile = ''log.tgz'',
      logGUID = ''G'', metaData = None, exitCode = None, transExitCode = None,
      pilotErrorCodes = [], pilotErrorDiags = [], fileinfodict = None\<rparr>"

definition job_202 :: job where
  "job_202 =
     \<lparr>PandaID = 202, workdir = ''/w/202'', state = ''running'', stageout = ''all'',
      inFiles = '''', outFiles = ''o1.root'', scopeIn = ''s'', ddmEndPointIn = ''EP1'',
      scopeOut = ''s'', ddmEndPointOut = ''EP2'', scopeLog = ''s'', logFile = ''log.tgz'',
      logGUID = ''G'',
      metaData = Some [[\<lparr>sf_name = ''o1.root'', sf_file_guid = ''GO'', sf_file_size = 42\<rparr>]],
      exitCode = None, transExitCode = None,
      pilotErrorCodes = [], pilotErrorDiags = [], fileinfodict = None\<rparr>"

definition exits :: "int \<Rightarrow> child" where
  "exits ec = \<lparr>spawns = True, stop_reads = (\<lambda>k. False), poll_reads = (\<lambda>n. Some ec)\<rparr>"

definition summary_202 :: "(string \<times> (string \<times> string) list) list" where
  "summary_202 =
     [(''s:o1.root'', [(''pfn'', ''srm://x''), (''adler32'', ''deadbeef'')]),
      (''s:log.tgz'', [(''pfn'', ''srm://y''), (''adler32'', ''feedface'')])]"

definition world_with :: "int \<Rightarrow> summary_file \<Rightarrow> world" where
  "world_with ec sf =
     \<lparr>tarball_bytes = Some 1000, uploads = (\<lambda>n. \<lparr>proc = exits ec, summary = sf\<rparr>)\<rparr>"

definition world_exit :: "int \<Rightarrow> world" where
  "world_exit ec = world_with ec (Parsed summary_202)"

definition messages :: "error_kind \<Rightarrow> string" where
  "messages k = ''error''"

definition empty_pipeline :: "job \<Rightarrow> pipeline" where
  "empty_pipeline j =
     \<lparr>jobs = (\<lambda>r. j), data_in = [], data_out = [], finished_data_in = [],
      failed_data_in = [], finished_data_out = [], failed_data_out = [],
      finished_jobs = [], failed_jobs = [], sent_states = [], commands = []\<rparr>"

section \<open>Notions used in the properties\<close>

text \<open>The bound on the two in-flight queues.\<close>

definition inflight_ok :: "manager \<Rightarrow> bool" where
  "inflight_ok m \<longleftrightarrow>
     length (queues m Q_processing_get_jobs) \<le> 1 \<and> length (queues m Q_processing_get_events) \<le> 1"

text \<open>
  A communicator whose pre-checks all give one answer and whose handlers all give
  another, the entry of the table for \<open>update_jobs\<close>, and a stop signal that another
  thread sets while the first pass is under way, just before the reading that ends it.
\<close>

definition uniform_communicator :: "response \<Rightarrow> response \<Rightarrow> communicator" where
  "uniform_communicator pre res =
     \<lparr>pre_check_get_jobs = (\<lambda>t. pre), comm_request_get_jobs = (\<lambda>t req. res),
      pre_check_get_events = (\<lambda>t. pre), comm_request_get_events = (\<lambda>t req. res),
      pre_check_update_jobs = (\<lambda>t. pre), comm_update_jobs = (\<lambda>t req. res),
      pre_check_update_events = (\<lambda>t. pre), comm_update_events = (\<lambda>t req. res),
      check_get_jobs_status = (\<lambda>t. pre), comm_get_jobs = (\<lambda>t req. res),
      check_get_events_status = (\<lambda>t. pre), comm_get_events = (\<lambda>t req. res)\<rparr>"

definition answer :: "pyval \<Rightarrow> response" where
  "answer st = \<lparr>status = st, content = None, exception = None\<rparr>"

definition update_jobs_entry :: "communicator \<Rightarrow> queue_name \<times> entry" where
  "update_jobs_entry c = get_processor c ! 2"

definition late_stop :: "nat \<Rightarrow> nat \<Rightarrow> bool" where
  "late_stop t i = (t = 0 \<and> i = 6)"

text \<open>
  The descriptors that the transfer loop does not skip, and a request as the draining
  of a queue leaves it.
\<close>

definition selected :: "job \<Rightarrow> (string \<times> descriptor) list \<Rightarrow> (string \<times> descriptor) list" where
  "selected j outputs = filter (\<lambda>kd. str_in (fst kd) (outFiles j)) outputs"

definition aborted :: "request \<Rightarrow> bool" where
  "aborted req \<longleftrightarrow>
     abort req \<and> (\<exists>msg. response req = Some \<lparr>status = PyNone, content = None,
                                              exception = Some (CommunicationFailure msg)\<rparr>)"

section \<open>Properties of the subprocess runner\<close>

lemma ticks_False:
  "ticks stp k n = (False, k') \<longleftrightarrow> (\<forall>j<n. \<not> stp (k + j)) \<and> k' = k + n"
proof (induction n arbitrary: k)
  case 0
  show ?case by auto
next
  case (Suc n)
  show ?case
  proof (cases "stp k")
    case True
    then show ?thesis by auto
  next
    case False
    have "(\<forall>j<Suc n. \<not> stp (k + j)) \<longleftrightarrow> (\<forall>j<n. \<not> stp (Suc k + j))"
      using False by (auto simp: less_Suc_eq_0_disj)
    with False Suc [of "Suc k"] show ?thesis by auto
  qed
qed

lemma ticks_fst:
  "fst (ticks stp k n) \<longleftrightarrow> (\<exists>j<n. stp (k + j))"
proof (induction n arbitrary: k)
  case 0
  show ?case by simp
next
  case (Suc n)
  show ?case
  proof (cases "stp k")
    case True
    then show ?thesis by auto
  next
    case False
    have "(\<exists>j<Suc n. stp (k + j)) \<longleftrightarrow> (\<exists>j<n. stp (Suc k + j))"
      using False by (auto simp: less_Suc_eq_0_disj)
    with False Suc [of "Suc k"] show ?thesis by auto
  qed
qed

lemma supervise_exit:
  "supervise fuel c k n = Some (Some ec) \<longleftrightarrow>
     (\<exists>m<fuel. (\<forall>i<m. poll_reads c (n + i) = None) \<and> poll_reads c (n + m) = Some ec
        \<and> (\<forall>j<10 * (m + 1). \<not> stop_reads c (k + j)))"
proof (induction fuel arbitrary: k n)
  case 0
  show ?case by simp
next
  case (Suc fuel)
  show ?case
  proof (cases "ticks (stop_reads c) k 10")
    case (Pair b k')
    show ?thesis
    proof (cases b)
      case True
      with Pair have "fst (ticks (stop_reads c) k 10)" by simp
      then obtain j where j: "j < 10" "stop_reads c (k + j)"
        by (auto simp: ticks_fst)
      have "\<not> (\<exists>m<Suc fuel. (\<forall>i<m. poll_reads c (n + i) = None) \<and> poll_reads c (n + m) = Some ec
        \<and> (\<forall>j<10 * (m + 1). \<not> stop_reads c (k + j)))"
      proof
        assume "\<exists>m<Suc fuel. (\<forall>i<m. poll_reads c (n + i) = None) \<and> poll_reads c (n + m) = Some ec
        \<and> (\<forall>j<10 * (m + 1). \<not> stop_reads c (k + j))"
        then obtain m where "\<forall>j<10 * (m + 1). \<not> stop_reads c (k + j)" by blast
        moreover have "j < 10 * (m + 1)" using j(1) by simp
        ultimately show False using j(2) by blast
      qed
      moreover have "supervise (Suc fuel) c k n = Some None"
        using Pair True by simp
      ultimately show ?thesis by simp
    next
      case False
      with Pair have t: "(\<forall>j<10. \<not> stop_reads c (k + j))" and k': "k' = k + 10"
        by (simp_all add: ticks_False)
      show ?thesis
      proof (cases "poll_reads c n")
        case (Some e)
        have "supervise (Suc fuel) c k n = Some (Some e)"
          using Pair False Some by simp
        moreover have "(\<exists>m<Suc fuel. (\<forall>i<m. poll_reads c (n + i) = None) \<and> poll_reads c (n + m) = Some ec
        \<and> (\<forall>j<10 * (m + 1). \<not> stop_reads c (k + j))) \<longleftrightarrow> e = ec"
        proof
          assume "\<exists>m<Suc fuel. (\<forall>i<m. poll_reads c (n + i) = None) \<and> poll_reads c (n + m) = Some ec
        \<and> (\<forall>j<10 * (m + 1). \<not> stop_reads c (k + j))"
          then obtain m where m: "\<forall>i<m. poll_reads c (n + i) = None" "poll_reads c (n + m) = Some ec"
            by blast
          have "m = 0"
          proof (rule ccontr)
            assume "m \<noteq> 0"
            then have "poll_reads c (n + 0) = None" using m(1) by blast
            with Some show False by simp
          qed
          with m(2) Some show "e = ec" by simp
        next
          assume "e = ec"
          with Some t show "\<exists>m<Suc fuel. (\<forall>i<m. poll_reads c (n + i) = None) \<and> poll_reads c (n + m) = Some ec
        \<and> (\<forall>j<10 * (m + 1). \<not> stop_reads c (k + j))"
            by (intro exI [of _ 0]) simp
        qed
        ultimately show ?thesis by auto
      next
        case None
        have s: "supervise (Suc fuel) c k n = supervise fuel c (k + 10) (Suc n)"
          using Pair False None k' by simp
        have "(\<exists>m<Suc fuel. (\<forall>i<m. poll_reads c (n + i) = None) \<and> poll_reads c (n + m) = Some ec
        \<and> (\<forall>j<10 * (m + 1). \<not> stop_reads c (k + j))) \<longleftrightarrow>
          (\<exists>m<fuel. (\<forall>i<m. poll_reads c (Suc n + i) = None) \<and> poll_reads c (Suc n + m) = Some ec
        \<and> (\<forall>j<10 * (m + 1). \<not> stop_reads c (k + 10 + j)))" (is "?L \<longleftrightarrow> ?R")
        proof
          assume ?L
          then obtain m where m: "m < Suc fuel" "\<forall>i<m. poll_reads c (n + i) = None"
            "poll_reads c (n + m) = Some ec" "\<forall>j<10 * (m + 1). \<not> stop_reads c (k + j)"
            by blast
          from m(3) None have "m \<noteq> 0" by (cases m) auto
          then obtain m' where m': "m = Suc m'" by (cases m) auto
          have a: "\<forall>i<m'. poll_reads c (Suc n + i) = None"
          proof (intro allI impI)
            fix i assume "i < m'"
            then have "Suc i < m" using m' by simp
            with m(2) have "poll_reads c (n + Suc i) = None" by blast
            then show "poll_reads c (Suc n + i) = None" by simp
          qed
          have b: "\<forall>j<10 * (m' + 1). \<not> stop_reads c (k + 10 + j)"
          proof (intro allI impI)
            fix j assume "j < 10 * (m' + 1)"
            then have "10 + j < 10 * (m + 1)" using m' by simp
            with m(4) have "\<not> stop_reads c (k + (10 + j))" by blast
            then show "\<not> stop_reads c (k + 10 + j)" by (simp add: add.assoc)
          qed
          from m(1) m(3) m' a b show ?R
            by (intro exI [of _ m']) simp
        next
          assume ?R
          then obtain m where m: "m < fuel" "\<forall>i<m. poll_reads c (Suc n + i) = None"
            "poll_reads c (Suc n + m) = Some ec" "\<forall>j<10 * (m + 1). \<not> stop_reads c (k + 10 + j)"
            by blast
          have a: "\<forall>i<Suc m. poll_reads c (n + i) = None"
          proof (intro allI impI)
            fix i assume i: "i < Suc m"
            show "poll_reads c (n + i) = None"
            proof (cases i)
              case 0
              with None show ?thesis by simp
            next
              case (Suc i')
              with i m(2) have "poll_reads c (Suc n + i') = None" by simp
              with Suc show ?thesis by simp
            qed
          qed
          have b: "\<forall>j<10 * (Suc m + 1). \<not> stop_reads c (k + j)"
          proof (intro allI impI)
            fix j assume j: "j < 10 * (Suc m + 1)"
            show "\<not> stop_reads c (k + j)"
            proof (cases "j < 10")
              case True
              with t show ?thesis by blast
            next
              case False
              then have "j - 10 < 10 * (m + 1)" using j by simp
              with m(4) have "\<not> stop_reads c (k + 10 + (j - 10))" by blast
              with False show ?thesis by (simp add: add.assoc)
            qed
          qed
          from m(1) m(3) a b show ?L
            by (intro exI [of _ "Suc m"]) simp
        qed
        with s Suc [of "k + 10" "Suc n"] show ?thesis by simp
      qed
    qed
  qed
qed

lemma ticks_never: "ticks (\<lambda>k. False) k n = (False, k + n)"
  by (simp add: ticks_False)

lemma supervise_exits: "supervise (Suc fuel) (exits ec) k n = Some (Some ec)"
  by (simp add: exits_def ticks_never)

lemma supervise_cancelled:
  "stop_reads c k \<Longrightarrow> supervise (Suc fuel) c k n = Some None"
proof -
  assume "stop_reads c k"
  then have "fst (ticks (stop_reads c) k 10)"
    by (simp add: ticks_fst) (rule exI [of _ 0], simp)
  then show ?thesis by (cases "ticks (stop_reads c) k 10") auto
qed

lemma call_cancelled: "spawns c \<Longrightarrow> stop_reads c 0 \<Longrightarrow> call (Suc fuel) c = Some False"
  by (simp add: call_def supervise_cancelled del: supervise.simps)

lemma supervise_natural_exit:
  "supervise fuel c 0 0 = Some (Some ec) \<longleftrightarrow> (\<exists>m<fuel. natural_exit c m ec)"
  by (simp add: supervise_exit natural_exit_def)

text \<open>
  C7. \<open>_call\<close> returns \<open>True\<close> exactly when the child was spawned and the runner saw it
  exit by itself with code 0; a child seen to exit with any code makes the call return,
  with success just for code 0; and when the child cannot be spawned the result is
  \<open>False\<close> at once, before any poll, so that no exit code is observed.
\<close>

theorem call_success_iff_exit_zero:
  "(call fuel c = Some True \<longleftrightarrow> spawns c \<and> (\<exists>m<fuel. natural_exit c m 0))
   \<and> (spawns c \<and> m < fuel \<and> natural_exit c m ec \<longrightarrow> call fuel c = Some (ec = 0))
   \<and> (\<not> spawns c \<longrightarrow> call fuel c = Some False \<and> call 0 c = Some False)"
proof (intro conjI impI)
  show "call fuel c = Some True \<longleftrightarrow> spawns c \<and> (\<exists>m<fuel. natural_exit c m 0)"
  proof (cases "spawns c")
    case False
    then show ?thesis by (simp add: call_def)
  next
    case True
    have "call fuel c = Some True \<longleftrightarrow> supervise fuel c 0 0 = Some (Some 0)"
      using True by (auto simp: call_def split: option.splits)
    with True show ?thesis by (simp add: supervise_natural_exit)
  qed
next
  assume a: "spawns c \<and> m < fuel \<and> natural_exit c m ec"
  then have "supervise fuel c 0 0 = Some (Some ec)"
    using supervise_natural_exit [of fuel c ec] by blast
  with a show "call fuel c = Some (ec = 0)" by (simp add: call_def)
next
  assume "\<not> spawns c"
  then show "call fuel c = Some False" by (simp add: call_def)
next
  assume "\<not> spawns c"
  then show "call 0 c = Some False" by (simp add: call_def)
qed

theorem call_success_iff_exit_zero_witness:
  "call 3 \<lparr>spawns = True, stop_reads = (\<lambda>k. False),
           poll_reads = (\<lambda>n. if n = 2 then Some 0 else None)\<rparr> = Some True
   \<and> call 3 \<lparr>spawns = True, stop_reads = (\<lambda>k. False),
           poll_reads = (\<lambda>n. if n = 2 then Some 1 else None)\<rparr> = Some False
   \<and> call 3 \<lparr>spawns = False, stop_reads = (\<lambda>k. False),
           poll_reads = (\<lambda>n. Some 0)\<rparr> = Some False"
proof -
  let ?c0 = "\<lparr>spawns = True, stop_reads = (\<lambda>k. False),
           poll_reads = (\<lambda>n. if n = 2 then Some (0::int) else None)\<rparr>"
  let ?c1 = "\<lparr>spawns = True, stop_reads = (\<lambda>k. False),
           poll_reads = (\<lambda>n. if n = 2 then Some (1::int) else None)\<rparr>"
  let ?c2 = "\<lparr>spawns = False, stop_reads = (\<lambda>k. False),
           poll_reads = (\<lambda>n. Some (0::int))\<rparr>"
  have n0: "natural_exit ?c0 2 0" by (simp add: natural_exit_def)
  have n1: "natural_exit ?c1 2 1" by (simp add: natural_exit_def)
  have "call 3 ?c0 = Some True"
    using call_success_iff_exit_zero [of 3 ?c0 2 0] n0 by simp
  moreover have "call 3 ?c1 = Some False"
    using call_success_iff_exit_zero [of 3 ?c1 2 1] n1 by simp
  moreover have "call 3 ?c2 = Some False"
    using call_success_iff_exit_zero [of 3 ?c2 0 0] by simp
  ultimately show ?thesis by simp
qed

section \<open>Properties of the pipeline workers\<close>

text \<open>
  C5. A job taken from \<open>finished_data_out\<close> goes to \<open>finished_jobs\<close> if its
  \<open>exitCode\<close> (0 when the job has none) is 0 and its \<open>transExitCode\<close> is there and
  is 0, and to \<open>failed_jobs\<close> in every other case; the job itself is not touched.
\<close>

theorem finished_data_out_routing:
  "finished_data_out p = r # rest \<Longrightarrow>
     finished_data_out (monitor_finished_data_out p) = rest
     \<and> jobs (monitor_finished_data_out p) = jobs p
     \<and> (if (case exitCode (jobs p r) of Some e \<Rightarrow> e | None \<Rightarrow> 0) = 0
            \<and> transExitCode (jobs p r) = Some 0
         then finished_jobs (monitor_finished_data_out p) = finished_jobs p @ [r]
              \<and> failed_jobs (monitor_finished_data_out p) = failed_jobs p
         else failed_jobs (monitor_finished_data_out p) = failed_jobs p @ [r]
              \<and> finished_jobs (monitor_finished_data_out p) = finished_jobs p)"
  by (auto simp: monitor_finished_data_out_def Let_def split: option.splits)

theorem finished_data_out_routing_witness:
  "failed_jobs (monitor_finished_data_out
      ((empty_pipeline (job_202\<lparr>exitCode := Some 1, transExitCode := Some 0\<rparr>))
         \<lparr>finished_data_out := [0]\<rparr>)) = [0]
   \<and> finished_jobs (monitor_finished_data_out
      ((empty_pipeline (job_202\<lparr>transExitCode := Some 0\<rparr>))
         \<lparr>finished_data_out := [0]\<rparr>)) = [0]"
  using finished_data_out_routing
          [of "(empty_pipeline (job_202\<lparr>exitCode := Some 1, transExitCode := Some 0\<rparr>))
                 \<lparr>finished_data_out := [0]\<rparr>" 0 "[]"]
        finished_data_out_routing
          [of "(empty_pipeline (job_202\<lparr>transExitCode := Some 0\<rparr>))
                 \<lparr>finished_data_out := [0]\<rparr>" 0 "[]"]
  by (simp add: empty_pipeline_def job_202_def)

text \<open>
  C8. For a job taken from \<open>data_in\<close> whose stage-in returns: on failure the job is on
  \<open>failed_data_in\<close>, its state is \<open>failed\<close>, and its error codes, which hold
  \<open>stage_in_failed\<close>, and its error messages are not empty; on success it is on
  \<open>finished_data_in\<close> and no job has changed.
\<close>

theorem copytool_in_routing:
  assumes "data_in p = r # rest" and "stage_in fuel c (jobs p r) = Some ok"
  shows "\<exists>p'. copytool_in_body fuel c msg p = Some p' \<and> data_in p' = rest
           \<and> (ok \<longrightarrow> finished_data_in p' = finished_data_in p @ [r]
                     \<and> failed_data_in p' = failed_data_in p \<and> jobs p' = jobs p)
           \<and> (\<not> ok \<longrightarrow> failed_data_in p' = failed_data_in p @ [r]
                     \<and> finished_data_in p' = finished_data_in p
                     \<and> state (jobs p' r) = ''failed''
                     \<and> stage_in_failed \<in> set (pilotErrorCodes (jobs p' r))
                     \<and> pilotErrorCodes (jobs p' r) \<noteq> [] \<and> pilotErrorDiags (jobs p' r) \<noteq> []
                     \<and> (\<forall>r'. r' \<noteq> r \<longrightarrow> jobs p' r' = jobs p r'))"
proof (cases ok)
  case True
  with assms show ?thesis
    by (simp add: copytool_in_body_def send_state_def Let_def)
next
  case False
  with assms show ?thesis
    by (simp add: copytool_in_body_def send_state_def update_job_def add_error_code_def Let_def)
qed

lemma stage_in_exits: "stage_in (Suc fuel) (exits ec) j = Some (ec = 0)"
proof -
  have "spawns (exits ec)" by (simp add: exits_def)
  then show ?thesis
    by (simp add: stage_in_def call_def supervise_exits del: supervise.simps)
qed

theorem copytool_in_routing_witness:
  "(\<exists>p'. copytool_in_body 1 (exits 1) messages ((empty_pipeline job_101)\<lparr>data_in := [0]\<rparr>) = Some p'
         \<and> failed_data_in p' = [0] \<and> state (jobs p' 0) = ''failed''
         \<and> pilotErrorCodes (jobs p' 0) \<noteq> [])
   \<and> (\<exists>p'. copytool_in_body 1 (exits 0) messages ((empty_pipeline job_101)\<lparr>data_in := [0]\<rparr>) = Some p'
         \<and> finished_data_in p' = [0] \<and> state (jobs p' 0) = ''running'')"
proof -
  let ?p = "(empty_pipeline job_101)\<lparr>data_in := [0]\<rparr>"
  have d: "data_in ?p = 0 # []" by simp
  have f: "stage_in 1 (exits 1) (jobs ?p 0) = Some False"
    using stage_in_exits [of 0 1] by simp
  have s: "stage_in 1 (exits 0) (jobs ?p 0) = Some True"
    using stage_in_exits [of 0 0] by simp
  have e: "failed_data_in ?p = []" "finished_data_in ?p = []" "state (jobs ?p 0) = ''running''"
    by (simp_all add: empty_pipeline_def job_101_def)
  from copytool_in_routing [OF d f, of messages] e have
    "\<exists>p'. copytool_in_body 1 (exits 1) messages ?p = Some p'
         \<and> failed_data_in p' = [0] \<and> state (jobs p' 0) = ''failed''
         \<and> pilotErrorCodes (jobs p' 0) \<noteq> []"
    by auto
  moreover from copytool_in_routing [OF d s, of messages] e have
    "\<exists>p'. copytool_in_body 1 (exits 0) messages ?p = Some p'
         \<and> finished_data_in p' = [0] \<and> state (jobs p' 0) = ''running''"
    by auto
  ultimately show ?thesis by blast
qed

section \<open>Properties of the communication manager\<close>

text \<open>
  C10. When the stop signal is set, each of the four public operations returns
  \<open>None\<close> and leaves the manager as it was: no request is created or queued, no
  post-hook is called, no response is made.
\<close>

theorem stopped_operations_return_None:
  "is_stop m \<Longrightarrow>
     get_jobs njobs hook args m = (Returned None, m)
     \<and> update_jobs upd hook m = (Returned None, m)
     \<and> get_event_ranges n hook jb m = (Returned None, m)
     \<and> update_events upd' hook m = (Returned None, m)"
  by (simp add: get_jobs_def update_jobs_def get_event_ranges_def update_events_def)

theorem stopped_operations_return_None_witness:
  "is_stop (stop init_manager)
   \<and> get_jobs 1 None [] (stop init_manager) = (Returned None, stop init_manager)
   \<and> update_jobs ''u'' (Some 7) (stop init_manager) = (Returned None, stop init_manager)
   \<and> get_event_ranges 1 None None (stop init_manager) = (Returned None, stop init_manager)
   \<and> update_events ''e'' None (stop init_manager) = (Returned None, stop init_manager)"
proof -
  have s: "is_stop (stop init_manager)"
    by (simp add: is_stop_def stop_def init_manager_def)
  from stopped_operations_return_None [OF s, of 1 None "[]" "''u''" 1 None "''e''"]
       stopped_operations_return_None [OF s, of 1 "Some 7" "[]" "''u''" 1 None "''e''"]
       s
  show ?thesis by simp
qed

lemma queues_drain: "queues (drain m q rs) = (queues m)(q := [])"
  by (induction rs arbitrary: m) auto

lemma queues_stop: "queues (stop m) = queues m"
  by (simp add: stop_def)

lemma queues_submit: "queues (snd (submit m q req)) = (queues m)(q := queues m q @ [allocated m])"
  by (simp add: submit_def new_request_def put_def Let_def)

lemma processor_next_queue:
  "(pt, e) \<in> set (get_processor c) \<Longrightarrow>
     next_queue e = None \<or>
     (pt = Q_request_get_jobs \<and> next_queue e = Some Q_processing_get_jobs) \<or>
     (pt = Q_request_get_events \<and> next_queue e = Some Q_processing_get_events)"
  by (auto simp: get_processor_def)

text \<open>What one entry does to the queues.\<close>

lemma run_entry_queues:
  "queues (snd (run_entry stop_now t (pt, e) (h, m))) = queues m
   \<or> queues (snd (run_entry stop_now t (pt, e) (h, m))) = (queues m)(pt := [])
   \<or> (\<exists>r rest. queues m pt = r # rest \<and>
        (queues (snd (run_entry stop_now t (pt, e) (h, m))) = (queues m)(pt := rest)
         \<or> (\<exists>nq. next_queue e = Some nq \<and> can_process_request m e pt
               \<and> queues (snd (run_entry stop_now t (pt, e) (h, m)))
                   = ((queues m)(pt := rest))(nq := ((queues m)(pt := rest)) nq @ [r]))))"
proof (cases "stop_now \<or> is_stop m")
  case True
  then have "is_stop (if stop_now then stop m else m)"
    by (auto simp: is_stop_def stop_def)
  then show ?thesis
    by (auto simp: run_entry_def Let_def queues_drain queues_stop)
next
  case False
  then show ?thesis
    by (auto simp: run_entry_def Let_def set_response_def put_def
             split: list.splits option.splits)
qed

lemma can_process_limit:
  "can_process_request m e pt \<Longrightarrow> next_queue e = Some nq \<Longrightarrow> queue_limits nq = Some l \<Longrightarrow>
     length (queues m nq) < l"
  by (auto simp: can_process_request_def split: if_splits)

lemma run_entry_inflight:
  assumes pe: "(pt, e) \<in> set (get_processor c)" and ok: "inflight_ok m"
  shows "inflight_ok (snd (run_entry stop_now t (pt, e) (h, m)))"
proof -
  let ?m' = "snd (run_entry stop_now t (pt, e) (h, m))"
  from run_entry_queues [of stop_now t pt e h m]
  consider (same) "queues ?m' = queues m"
    | (drained) "queues ?m' = (queues m)(pt := [])"
    | (taken) r rest where "queues m pt = r # rest" "queues ?m' = (queues m)(pt := rest)"
    | (moved) r rest nq where "queues m pt = r # rest" "next_queue e = Some nq"
        "can_process_request m e pt"
        "queues ?m' = ((queues m)(pt := rest))(nq := ((queues m)(pt := rest)) nq @ [r])"
    by blast
  then show ?thesis
  proof cases
    case same
    with ok show ?thesis by (simp add: inflight_ok_def)
  next
    case drained
    with ok show ?thesis by (simp add: inflight_ok_def)
  next
    case taken
    with ok show ?thesis by (auto simp: inflight_ok_def)
  next
    case moved
    from processor_next_queue [OF pe] moved(2)
    consider "pt = Q_request_get_jobs" "nq = Q_processing_get_jobs"
      | "pt = Q_request_get_events" "nq = Q_processing_get_events"
      by auto
    then show ?thesis
    proof cases
      case 1
      have "length (queues m Q_processing_get_jobs) < 1"
        using can_process_limit [OF moved(3) moved(2), of 1] 1 by (simp add: queue_limits_def)
      with moved(4) 1 ok show ?thesis by (simp add: inflight_ok_def)
    next
      case 2
      have "length (queues m Q_processing_get_events) < 1"
        using can_process_limit [OF moved(3) moved(2), of 1] 2 by (simp add: queue_limits_def)
      with moved(4) 2 ok show ?thesis by (simp add: inflight_ok_def)
    qed
  qed
qed

lemma reachable_inflight: "reachable c m \<Longrightarrow> inflight_ok m"
proof (induction rule: reachable.induct)
  case r_init
  show ?case by (simp add: inflight_ok_def init_manager_def)
next
  case (r_get_jobs m n hook args)
  then show ?case by (simp add: inflight_ok_def get_jobs_def queues_submit)
next
  case (r_update_jobs m upd hook)
  then show ?case by (simp add: inflight_ok_def update_jobs_def queues_submit)
next
  case (r_get_event_ranges m n hook jb)
  then show ?case
    by (auto simp: inflight_ok_def get_event_ranges_def queues_submit split: option.splits)
next
  case (r_update_events m upd hook)
  then show ?case by (simp add: inflight_ok_def update_events_def queues_submit)
next
  case (r_stop m)
  then show ?case by (simp add: inflight_ok_def queues_stop)
next
  case (r_entry m pe stop_now t has_req)
  then show ?case using run_entry_inflight [of "fst pe" "snd pe" c m stop_now t has_req]
    by simp
qed

lemma run_entry_grows:
  assumes "length (queues m nq) < length (queues (snd (run_entry stop_now t (pt, e) (h, m))) nq)"
  shows "next_queue e = Some nq \<and> can_process_request m e pt"
proof -
  let ?m' = "snd (run_entry stop_now t (pt, e) (h, m))"
  from run_entry_queues [of stop_now t pt e h m]
  consider (same) "queues ?m' = queues m"
    | (drained) "queues ?m' = (queues m)(pt := [])"
    | (taken) r rest where "queues m pt = r # rest" "queues ?m' = (queues m)(pt := rest)"
    | (moved) r rest nq' where "queues m pt = r # rest" "next_queue e = Some nq'"
        "can_process_request m e pt"
        "queues ?m' = ((queues m)(pt := rest))(nq' := ((queues m)(pt := rest)) nq' @ [r])"
    by blast
  then show ?thesis
  proof cases
    case same
    with assms show ?thesis by simp
  next
    case drained
    with assms show ?thesis by (simp split: if_splits)
  next
    case taken
    with assms show ?thesis by (simp split: if_splits)
  next
    case moved
    with assms show ?thesis by (auto split: if_splits)
  qed
qed

text \<open>
  C9. In every state the manager can reach, each of the in-flight queues
  \<open>processing_get_jobs\<close> and \<open>processing_get_events\<close> holds at most one request; and
  when the handling of an entry makes a queue with a limit longer, that queue is the
  entry's next queue and its length before was below the limit.
\<close>

theorem inflight_at_most_one:
  "(reachable c m \<longrightarrow>
      length (queues m Q_processing_get_jobs) \<le> 1 \<and> length (queues m Q_processing_get_events) \<le> 1)
   \<and> (length (queues m nq) < length (queues (snd (run_entry stop_now t (pt, e) (h, m))) nq)
        \<and> queue_limits nq = Some l \<longrightarrow>
      next_queue e = Some nq \<and> length (queues m nq) < l)"
proof -
  have A: "reachable c m \<longrightarrow>
      length (queues m Q_processing_get_jobs) \<le> 1 \<and> length (queues m Q_processing_get_events) \<le> 1"
    using reachable_inflight [of c m] by (simp add: inflight_ok_def)
  have B: "next_queue e = Some nq \<and> length (queues m nq) < l"
    if a: "length (queues m nq) < length (queues (snd (run_entry stop_now t (pt, e) (h, m))) nq)"
      and l: "queue_limits nq = Some l"
  proof -
    from a have g: "next_queue e = Some nq \<and> can_process_request m e pt"
      by (rule run_entry_grows)
    with l show ?thesis using can_process_limit by blast
  qed
  from A B show ?thesis by blast
qed

theorem inflight_at_most_one_witness:
  "reachable (uniform_communicator (answer (PyInt 0)) (answer (PyBool True)))
     (snd (run_entry False 0
        (hd (get_processor (uniform_communicator (answer (PyInt 0)) (answer (PyBool True)))))
        (False, snd (get_jobs 1 None [] init_manager))))
   \<and> queues (snd (run_entry False 0
        (hd (get_processor (uniform_communicator (answer (PyInt 0)) (answer (PyBool True)))))
        (False, snd (get_jobs 1 None [] init_manager)))) Q_processing_get_jobs = [0]
   \<and> length (queues (snd (run_entry False 0
        (hd (get_processor (uniform_communicator (answer (PyInt 0)) (answer (PyBool True)))))
        (False, snd (get_jobs 1 None [] init_manager)))) Q_processing_get_jobs) \<le> 1
   \<and> length (queues (snd (get_jobs 1 None [] init_manager)) Q_processing_get_jobs) < 1"
proof -
  define c where "c = uniform_communicator (answer (PyInt 0)) (answer (PyBool True))"
  define m0 where "m0 = snd (get_jobs 1 None [] init_manager)"
  define e where "e = snd (hd (get_processor c))"
  define m1 where "m1 = snd (run_entry False 0 (Q_request_get_jobs, e) (False, m0))"
  have pe: "hd (get_processor c) = (Q_request_get_jobs, e)"
    by (simp add: e_def get_processor_def)
  have r0: "reachable c m0"
    unfolding m0_def by (rule r_get_jobs [OF r_init])
  have r1: "reachable c m1"
    unfolding m1_def
    using r_entry [OF r0, of "(Q_request_get_jobs, e)" False 0 False] pe
    by (simp add: get_processor_def)
  have q0: "queues m0 Q_processing_get_jobs = []"
    by (simp add: m0_def get_jobs_def submit_def new_request_def put_def init_manager_def
          is_stop_def CommunicationRequest_def Let_def)
  have q1: "queues m1 Q_processing_get_jobs = [0]"
    by (simp add: m1_def m0_def e_def c_def get_processor_def uniform_communicator_def answer_def
          get_jobs_def submit_def new_request_def put_def init_manager_def is_stop_def
          CommunicationRequest_def run_entry_def can_process_request_def py_eq_zero_def
          is_False_def queue_limits_def Let_def)
  have l: "queue_limits Q_processing_get_jobs = Some 1"
    by (simp add: queue_limits_def)
  have grow: "length (queues m0 Q_processing_get_jobs)
                < length (queues (snd (run_entry False 0 (Q_request_get_jobs, e) (False, m0)))
                            Q_processing_get_jobs)"
    using q0 q1 by (simp add: m1_def)
  from inflight_at_most_one [of c m1 Q_processing_get_jobs False 0 Q_request_get_jobs e False 1] r1
  have a: "length (queues m1 Q_processing_get_jobs) \<le> 1" by blast
  from inflight_at_most_one [of c m0 Q_processing_get_jobs False 0 Q_request_get_jobs e False 1]
       grow l
  have b: "length (queues m0 Q_processing_get_jobs) < 1" by blast
  from r1 q1 a b show ?thesis
    unfolding m1_def m0_def c_def [symmetric] pe by simp
qed

text \<open>
  C4, as the claim has it, fails: a request with a post-hook, handled by the entry for
  \<open>update_jobs\<close>, whose bit is set, gets a response of status \<open>False\<close>; the response
  is attached to the request and the post-hook is not called.
\<close>

theorem post_hook_on_failure_counterexample:
  "process_req_post_hook (snd (update_jobs_entry (uniform_communicator (answer (PyInt 0)) (answer (PyBool False)))))
   \<and> post_hook (reqs (snd (update_jobs ''u'' (Some 7) init_manager)) 0) = Some 7
   \<and> queues (snd (update_jobs ''u'' (Some 7) init_manager)) Q_update_jobs = [0]
   \<and> fst (run_entry False 0
            (update_jobs_entry (uniform_communicator (answer (PyInt 0)) (answer (PyBool False))))
            (False, snd (update_jobs ''u'' (Some 7) init_manager)))
   \<and> queues (snd (run_entry False 0
            (update_jobs_entry (uniform_communicator (answer (PyInt 0)) (answer (PyBool False))))
            (False, snd (update_jobs ''u'' (Some 7) init_manager)))) Q_update_jobs = []
   \<and> hook_calls (snd (run_entry False 0
            (update_jobs_entry (uniform_communicator (answer (PyInt 0)) (answer (PyBool False))))
            (False, snd (update_jobs ''u'' (Some 7) init_manager)))) = []"
  by (simp add: update_jobs_entry_def get_processor_def uniform_communicator_def answer_def
        update_jobs_def submit_def new_request_def put_def init_manager_def is_stop_def
        CommunicationRequest_def run_entry_def can_process_request_def py_eq_zero_def
        is_False_def set_response_def Let_def)

lemma post_hook_set_response [simp]: "post_hook (reqs (set_response m r res) r) = post_hook (reqs m r)"
  by (simp add: set_response_def)

text \<open>
  C4, amended. For a request that an entry with the bit set takes from its queue and
  that carries a post-hook, the post-hook is called once with the handler's response
  when the status of the response is not \<open>False\<close>; when it is \<open>False\<close> the response
  is attached to the request and the post-hook is not called.
\<close>

theorem post_hook_iff_status_not_False:
  assumes "\<not> is_stop m" and "\<not> stop_now" and "can_process_request m e pt"
    and "py_eq_zero (status (pre_check e t))" and "queues m pt = r # rest"
    and "process_req_post_hook e" and "post_hook (reqs m r) = Some h"
  shows "hook_calls (snd (run_entry stop_now t (pt, e) (has_req, m))) =
           hook_calls m @ (if is_False (status (handler e t (reqs m r))) then []
                           else [(h, handler e t (reqs m r))])
         \<and> (is_False (status (handler e t (reqs m r))) \<longrightarrow>
              response (reqs (snd (run_entry stop_now t (pt, e) (has_req, m))) r)
                = Some (handler e t (reqs m r)))"
  using assms
  by (auto simp: run_entry_def Let_def set_response_def put_def split: option.splits)

theorem post_hook_iff_status_not_False_witness:
  "hook_calls (snd (run_entry False 0
      (update_jobs_entry (uniform_communicator (answer (PyInt 0)) (answer (PyBool True))))
      (False, snd (update_jobs ''u'' (Some 7) init_manager))))
     = [(7, answer (PyBool True))]"
proof -
  define c where "c = uniform_communicator (answer (PyInt 0)) (answer (PyBool True))"
  define m0 where "m0 = snd (update_jobs ''u'' (Some 7) init_manager)"
  define e where "e = snd (update_jobs_entry c)"
  have pe: "update_jobs_entry c = (Q_update_jobs, e)"
    by (simp add: e_def update_jobs_entry_def get_processor_def)
  have m0: "queues m0 Q_update_jobs = 0 # []" "post_hook (reqs m0 0) = Some 7"
    "\<not> is_stop m0" "hook_calls m0 = []"
    by (simp_all add: m0_def update_jobs_def submit_def new_request_def put_def init_manager_def
          is_stop_def CommunicationRequest_def Let_def)
  have e: "process_req_post_hook e" "py_eq_zero (status (pre_check e 0))"
    "handler e 0 (reqs m0 0) = answer (PyBool True)" "next_queue e = None"
    by (simp_all add: e_def c_def update_jobs_entry_def get_processor_def
          uniform_communicator_def answer_def py_eq_zero_def)
  have cp: "can_process_request m0 e Q_update_jobs"
    using m0(1) e(4) by (simp add: can_process_request_def)
  have nf: "\<not> is_False (status (answer (PyBool True)))"
    by (simp add: answer_def is_False_def)
  from post_hook_iff_status_not_False [OF m0(3) _ cp e(2) m0(1) e(1) m0(2), of False False]
       e(3) nf m0(4)
  have "hook_calls (snd (run_entry False 0 (Q_update_jobs, e) (False, m0)))
          = [(7, answer (PyBool True))]"
    by simp
  then show ?thesis
    unfolding m0_def c_def [symmetric] pe by simp
qed

lemma aborted_abort_request: "aborted (abort_request req)"
  by (simp add: aborted_def abort_request_def)

lemma abort_request_idem: "abort_request (abort_request req) = abort_request req"
  by (simp add: abort_request_def)

lemma drain_stop_event: "stop_event (drain m q rs) = stop_event m"
  by (induction rs arbitrary: m) auto

lemma drain_reqs:
  "reqs (drain m q rs) r = (if r \<in> set rs then abort_request (reqs m r) else reqs m r)"
  by (induction rs arbitrary: m) (auto simp: abort_request_idem)

lemma run_entry_stopped:
  "is_stop m \<Longrightarrow>
     run_entry stop_now t (pt, e) (h, m) = (h, drain m pt (queues m pt))"
  by (simp add: run_entry_def is_stop_def stop_def Let_def)

lemma run_entries_stopped:
  "is_stop m \<Longrightarrow>
     fst (run_entries sig t i pes (h, m)) = h
     \<and> is_stop (snd (run_entries sig t i pes (h, m)))
     \<and> (\<forall>q. queues (snd (run_entries sig t i pes (h, m))) q
              = (if q \<in> fst ` set pes then [] else queues m q))
     \<and> (\<forall>r. reqs (snd (run_entries sig t i pes (h, m))) r
              = (if \<exists>q\<in>fst ` set pes. r \<in> set (queues m q) then abort_request (reqs m r)
                 else reqs m r))"
proof (induction pes arbitrary: m i)
  case Nil
  then show ?case by simp
next
  case (Cons pe pes)
  obtain pt e where pe: "pe = (pt, e)" by (cases pe)
  let ?m1 = "drain m pt (queues m pt)"
  have s1: "is_stop ?m1" using Cons.prems by (simp add: is_stop_def drain_stop_event)
  have step: "run_entries sig t i (pe # pes) (h, m) = run_entries sig t (Suc i) pes (h, ?m1)"
    using Cons.prems by (simp add: pe run_entry_stopped)
  note IH = Cons.IH [OF s1, of "Suc i"]
  have q1: "queues ?m1 = (queues m)(pt := [])" by (rule queues_drain)
  have r1: "reqs ?m1 r = (if r \<in> set (queues m pt) then abort_request (reqs m r) else reqs m r)" for r
    by (rule drain_reqs)
  show ?case
  proof (intro conjI allI)
    show "fst (run_entries sig t i (pe # pes) (h, m)) = h"
      using IH step by simp
    show "is_stop (snd (run_entries sig t i (pe # pes) (h, m)))"
      using IH step by simp
    fix q
    show "queues (snd (run_entries sig t i (pe # pes) (h, m))) q
            = (if q \<in> fst ` set (pe # pes) then [] else queues m q)"
      using IH step q1 by (simp add: pe)
  next
    fix r
    have "reqs (snd (run_entries sig t (Suc i) pes (h, ?m1))) r
            = (if \<exists>q\<in>fst ` set pes. r \<in> set (queues ?m1 q) then abort_request (reqs ?m1 r)
               else reqs ?m1 r)"
      using IH by blast
    then show "reqs (snd (run_entries sig t i (pe # pes) (h, m))) r
            = (if \<exists>q\<in>fst ` set (pe # pes). r \<in> set (queues m q) then abort_request (reqs m r)
               else reqs m r)"
      unfolding step q1 r1
      by (auto simp: pe abort_request_idem split: if_splits)
  qed
qed

lemma processor_queues:
  "fst ` set (get_processor c) =
     {Q_request_get_jobs, Q_request_get_events, Q_update_jobs, Q_update_events,
      Q_processing_get_jobs, Q_processing_get_events}"
  by (auto simp: get_processor_def)

text \<open>
  When the stop signal is set as a pass begins, the pass empties the six queues of the
  table, aborts every request that was on them, and the loop ends with that pass.
\<close>

lemma stopped_pass_drains:
  assumes "is_stop m"
  shows "\<exists>m'. run_loop (Suc fuel) sigs (get_processor c) t m = Some m'
           \<and> (\<forall>q\<in>fst ` set (get_processor c). queues m' q = []
                  \<and> (\<forall>r\<in>set (queues m q). aborted (reqs m' r)))"
proof -
  let ?hm = "run_entries (sigs t) t 0 (get_processor c) (False, m)"
  note R = run_entries_stopped [OF assms, of "sigs t" t 0 "get_processor c" False]
  have h: "\<not> fst ?hm" using R by simp
  have s: "is_stop (snd ?hm)" using R by simp
  then have s': "stop (snd ?hm) = snd ?hm" by (simp add: stop_def)
  have loop: "run_loop (Suc fuel) sigs (get_processor c) t m = Some (snd ?hm)"
    using h s s' by (simp add: Let_def)
  have "queues (snd ?hm) q = [] \<and> (\<forall>r\<in>set (queues m q). aborted (reqs (snd ?hm) r))"
    if q: "q \<in> fst ` set (get_processor c)" for q
  proof
    show "queues (snd ?hm) q = []" using R q by simp
    show "\<forall>r\<in>set (queues m q). aborted (reqs (snd ?hm) r)"
    proof
      fix r assume r: "r \<in> set (queues m q)"
      with q have "\<exists>q\<in>fst ` set (get_processor c). r \<in> set (queues m q)" by blast
      with R have "reqs (snd ?hm) r = abort_request (reqs m r)" by simp
      then show "aborted (reqs (snd ?hm) r)" by (simp add: aborted_abort_request)
    qed
  qed
  with loop show ?thesis by blast
qed

text \<open>The dispatch loop stays within the reachable states.\<close>

lemma run_entries_reachable:
  "reachable c m \<Longrightarrow> set pes \<subseteq> set (get_processor c) \<Longrightarrow>
     reachable c (snd (run_entries sig t i pes (h, m)))"
proof (induction pes arbitrary: m h i)
  case Nil
  then show ?case by simp
next
  case (Cons pe pes)
  let ?hm = "run_entry (sig i) t pe (h, m)"
  have "reachable c (snd ?hm)"
    using r_entry [OF Cons.prems(1), of pe "sig i" t h] Cons.prems(2) by simp
  from Cons.IH [OF this, where h = "fst ?hm" and i = "Suc i"] Cons.prems(2)
  show ?case by simp
qed

lemma run_loop_reachable:
  "reachable c m \<Longrightarrow> run_loop fuel sigs (get_processor c) t m = Some m' \<Longrightarrow> reachable c m'"
proof (induction fuel arbitrary: m t)
  case 0
  then show ?case by simp
next
  case (Suc fuel)
  let ?hm = "run_entries (sigs t) t 0 (get_processor c) (False, m)"
  have r1: "reachable c (snd ?hm)"
    by (rule run_entries_reachable [OF Suc.prems(1)]) simp
  show ?case
  proof (cases "fst ?hm")
    case True
    with Suc.prems(2) have "run_loop fuel sigs (get_processor c) (Suc t) (snd ?hm) = Some m'"
      by (simp add: Let_def)
    from Suc.IH [OF r1 this] show ?thesis .
  next
    case False
    let ?m1 = "if sigs t (length (get_processor c)) then stop (snd ?hm) else snd ?hm"
    have r2: "reachable c ?m1" using r1 by (simp add: r_stop)
    show ?thesis
    proof (cases "is_stop ?m1")
      case True
      with False Suc.prems(2) have "m' = ?m1" by (simp add: Let_def)
      with r2 show ?thesis by simp
    next
      case nstop: False
      with False Suc.prems(2) have "run_loop fuel sigs (get_processor c) (Suc t) ?m1 = Some m'"
        by (simp add: Let_def)
      from Suc.IH [OF r2 this] show ?thesis .
    qed
  qed
qed

text \<open>
  C3. The code at a failing input: a synchronous \<open>get_jobs\<close> request is queued, the
  pre-check of its entry is not ready, so the pass leaves it where it is, and another
  thread sets the stop signal before the reading that ends the pass. The loop ends at
  once: the request is still queued, not aborted and without a response, and the
  client's wait goes on.
\<close>

theorem stop_before_exit_check:
  "run 1 late_stop (uniform_communicator (answer (PyInt (- 1))) (answer (PyBool True)))
       (snd (get_jobs 1 None [] init_manager))
     = Some (stop (snd (get_jobs 1 None [] init_manager)))
   \<and> queues (stop (snd (get_jobs 1 None [] init_manager))) Q_request_get_jobs = [0]
   \<and> response (reqs (stop (snd (get_jobs 1 None [] init_manager))) 0) = None
   \<and> abort (reqs (stop (snd (get_jobs 1 None [] init_manager))) 0) = False
   \<and> poll_response (stop (snd (get_jobs 1 None [] init_manager))) 0 = Waiting 0"
  by (simp add: run_def late_stop_def get_processor_def uniform_communicator_def answer_def
        get_jobs_def submit_def new_request_def put_def init_manager_def is_stop_def stop_def
        CommunicationRequest_def run_entry_def can_process_request_def py_eq_zero_def
        is_False_def set_response_def poll_response_def queue_limits_def Let_def)

section \<open>Properties of the stage-out driver\<close>

lemma stage_out_exits:
  "stage_out (Suc fuel) \<lparr>proc = exits ec, summary = Parsed s\<rparr> = Some (Inr (Some s))"
proof -
  have "spawns (exits ec)" by (simp add: exits_def)
  then show ?thesis by (simp add: stage_out_def supervise_exits del: supervise.simps)
qed

text \<open>
  What the driver does on every input: it runs one upload for each descriptor whose key
  is in \<open>outFiles\<close>, in order and whether or not an earlier one failed; it reports
  failure exactly when \<open>_stage_out\<close> returned \<open>None\<close> for one of them, which is when
  the child could not be spawned, or was cancelled, or left no summary file; and the
  state and the tags of the job follow the result.
\<close>

lemma stage_out_None:
  "stage_out fuel u = Some (Inr None) \<longleftrightarrow>
     \<not> spawns (proc u) \<or> supervise fuel (proc u) 0 0 = Some None
     \<or> ((\<exists>ec. supervise fuel (proc u) 0 0 = Some (Some ec)) \<and> summary u = No_such_file)"
  by (auto simp: stage_out_def split: option.splits summary_file.splits)

lemma transfer_loop_commands:
  "transfer_loop fuel ups j outputs acc = Some (Inr acc') \<Longrightarrow>
     t_commands acc' = t_commands acc @ map (\<lambda>kd. stage_out_argv (snd kd) j) (selected j outputs)"
proof (induction outputs arbitrary: acc)
  case Nil
  then show ?case by (simp add: selected_def)
next
  case (Cons kd outputs)
  obtain k d where kd: "kd = (k, d)" by (cases kd)
  show ?case
  proof (cases "str_in k (outFiles j)")
    case False
    with Cons kd show ?thesis by (simp add: selected_def)
  next
    case True
    with Cons.prems kd show ?thesis
      by (auto simp: selected_def split: option.splits sum.splits dest!: Cons.IH)
  qed
qed

lemma transfer_loop_failed:
  "transfer_loop fuel ups j outputs acc = Some (Inr acc') \<Longrightarrow>
     t_failed acc' \<longleftrightarrow>
       t_failed acc \<or> (\<exists>i<length (selected j outputs).
                          stage_out fuel (ups (length (t_commands acc) + i)) = Some (Inr None))"
proof (induction outputs arbitrary: acc)
  case Nil
  then show ?case by (simp add: selected_def)
next
  case (Cons kd outputs)
  obtain k d where kd: "kd = (k, d)" by (cases kd)
  show ?case
  proof (cases "str_in k (outFiles j)")
    case False
    with Cons kd show ?thesis by (simp add: selected_def)
  next
    case True
    then have sel: "selected j (kd # outputs) = kd # selected j outputs"
      by (simp add: selected_def kd)
    let ?u = "ups (length (t_commands acc))"
    have ex: "(\<exists>i<Suc n. P i) \<longleftrightarrow> P 0 \<or> (\<exists>i<n. P (Suc i))" for P n
      by (metis less_Suc_eq_0_disj)
    from Cons.prems kd True consider
        (none) acc1 where "stage_out fuel ?u = Some (Inr None)"
          "acc1 = acc\<lparr>t_commands := t_commands acc @ [stage_out_argv d j], t_failed := True\<rparr>"
          "transfer_loop fuel ups j outputs acc1 = Some (Inr acc')"
      | (some) s acc1 fi where "stage_out fuel ?u = Some (Inr (Some s))"
          "acc1 = acc\<lparr>t_commands := t_commands acc @ [stage_out_argv d j], t_fileinfodict := fi\<rparr>"
          "transfer_loop fuel ups j outputs acc1 = Some (Inr acc')"
      by (auto split: option.splits sum.splits)
    then show ?thesis
    proof cases
      case none
      from Cons.IH [OF none(3)] none(1,2) show ?thesis
        by (simp add: sel ex)
    next
      case some
      from Cons.IH [OF some(3)] some(1,2) show ?thesis
        by (simp add: sel ex)
    qed
  qed
qed

lemma stage_out_all_result:
  assumes "stage_out_all fuel w msg j = Some (Inr (ok, j', cmds))"
  shows "(ok \<longrightarrow> state j' = ''finished'' \<and> fileinfodict j' \<noteq> None
               \<and> pilotErrorCodes j' = pilotErrorCodes j)
       \<and> (\<not> ok \<longrightarrow> state j' = ''failed'' \<and> pilotErrorCodes j' = [stage_out_failed]
               \<and> pilotErrorDiags j' \<noteq> [] \<and> fileinfodict j' = fileinfodict j)"
  using assms
  by (auto simp: stage_out_all_def add_error_code_def split: sum.splits option.splits if_splits)

lemma stage_out_all_transfers:
  assumes "stage_out_all fuel w msg j = Some (Inr (ok, j', cmds))"
  shows "\<exists>outputs. build_outputs w j = Inr outputs
           \<and> cmds = map (\<lambda>kd. stage_out_argv (snd kd) j) (selected j outputs)
           \<and> (\<not> ok \<longleftrightarrow> (\<exists>i<length (selected j outputs).
                            stage_out fuel (uploads w i) = Some (Inr None)))"
proof -
  from assms obtain outputs acc where o: "build_outputs w j = Inr outputs"
    and t: "transfer_loop fuel (uploads w) j outputs
              \<lparr>t_fileinfodict = [], t_failed = False, t_commands = []\<rparr> = Some (Inr acc)"
    and r: "ok = (\<not> t_failed acc)" "cmds = t_commands acc"
    by (auto simp: stage_out_all_def split: sum.splits option.splits if_splits)
  from transfer_loop_commands [OF t] transfer_loop_failed [OF t] o r show ?thesis
    by simp
qed

text \<open>\<open>set_pilot_state\<close> keeps a state that is \<open>failed\<close> and overwrites any other.\<close>

lemma set_pilot_state_failed:
  "state j = ''failed'' \<Longrightarrow> snd (set_pilot_state environ (Some j) st) = Some j"
  by (simp add: set_pilot_state_def Let_def)

lemma set_pilot_state_other:
  "state j \<noteq> ''failed'' \<Longrightarrow> snd (set_pilot_state environ (Some j) st) = Some (j\<lparr>state := st\<rparr>)"
  by (simp add: set_pilot_state_def Let_def)

text \<open>
  C2. The code at a failing input. With \<open>stageout = log\<close> the only descriptor is the
  log's, under the key \<open>s:log.tgz\<close>, which is not in \<open>outFiles\<close>: no upload is run
  and the call reports success. In scenario 4 of the specification, where every upload
  would succeed, the only upload run is that of \<open>o1.root\<close>, and the file-info mapping
  has no entry for the log.
\<close>

theorem log_is_filtered_like_an_output:
  "stage_out_all 1 (world_exit 0) messages (job_202\<lparr>stageout := ''log''\<rparr>)
     = Some (Inr (True,
         job_202\<lparr>stageout := ''log'', fileinfodict := Some [], state := ''finished''\<rparr>, []))
   \<and> stage_out_all 1 (world_exit 0) messages job_202
     = Some (Inr (True,
         job_202\<lparr>fileinfodict :=
                    Some [(''o1.root'', \<lparr>fd_guid = ''GO'', fd_fsize = 42,
                                          fd_adler32 = ''deadbeef'', fd_surl = ''srm://x''\<rparr>)],
                 state := ''finished''\<rparr>,
         [[''/usr/bin/env'', ''rucio'', ''-v'', ''upload'', ''--summary'', ''--no-register'',
           ''--guid'', ''GO'', ''--rse'', ''EP2'', ''--scope'', ''s'', ''o1.root'']]))"
  by (simp add: stage_out_all_def build_outputs_def prepare_log_def world_exit_def world_with_def job_202_def
        stage_out_exits summary_entry_def summary_202_def stage_out_argv_def first_endpoint_def)

text \<open>
  C6. The code at a failing input: the upload of the only output of scenario 4 exits
  with code 1, which the runner \<open>_call\<close> reports as a failure, while a summary file
  with an entry for the output is in the working directory. \<open>_stage_out_all\<close> returns
  success and sets the state to \<open>finished\<close>. With a summary file that has no entry
  for the output, the call raises \<open>KeyError\<close> instead of returning.
\<close>

theorem nonzero_exit_counts_as_success:
  "stage_out_all 1 (world_exit 1) messages job_202
     = Some (Inr (True,
         job_202\<lparr>fileinfodict :=
                    Some [(''o1.root'', \<lparr>fd_guid = ''GO'', fd_fsize = 42,
                                          fd_adler32 = ''deadbeef'', fd_surl = ''srm://x''\<rparr>)],
                 state := ''finished''\<rparr>,
         [[''/usr/bin/env'', ''rucio'', ''-v'', ''upload'', ''--summary'', ''--no-register'',
           ''--guid'', ''GO'', ''--rse'', ''EP2'', ''--scope'', ''s'', ''o1.root'']]))
   \<and> stage_out_all 1 (world_with 1 (Parsed [])) messages job_202
     = Some (Inl (KeyError ''s:o1.root''))
   \<and> call 1 (exits 1) = Some False"
proof -
  have "call 1 (exits 1) = Some False"
    by (simp add: call_def exits_def ticks_never)
  then show ?thesis
    by (simp add: stage_out_all_def build_outputs_def prepare_log_def world_exit_def world_with_def job_202_def
          stage_out_exits summary_entry_def summary_202_def stage_out_argv_def first_endpoint_def)
qed

text \<open>
  C1. The code at two failing inputs: \<open>set_pilot_state\<close> changes the state of a job
  that is \<open>finished\<close>; and the log-only stage-out that the queue monitor runs on a job
  from \<open>failed_data_in\<close>, whose state is \<open>failed\<close>, leaves it \<open>finished\<close> on
  \<open>failed_jobs\<close>, whether the log is skipped or uploaded.
\<close>

theorem state_overwritten:
  "snd (set_pilot_state Map.empty (Some (job_202\<lparr>state := ''finished''\<rparr>)) ''running'')
     = Some (job_202\<lparr>state := ''running''\<rparr>)
   \<and> stage_out_all 1 (world_exit 0) messages (job_101\<lparr>state := ''failed'', stageout := ''log''\<rparr>)
     = Some (Inr (True,
         job_101\<lparr>stageout := ''log'', fileinfodict := Some [], state := ''finished''\<rparr>, []))
   \<and> stage_out_all 1 (world_exit 0) messages
        (job_101\<lparr>state := ''failed'', stageout := ''log'', outFiles := ''s:log.tgz''\<rparr>)
     = Some (Inr (True,
         job_101\<lparr>stageout := ''log'', outFiles := ''s:log.tgz'',
                 fileinfodict :=
                   Some [(''log.tgz'', \<lparr>fd_guid = ''G'', fd_fsize = 1000,
                                         fd_adler32 = ''feedface'', fd_surl = ''srm://y''\<rparr>)],
                 state := ''finished''\<rparr>,
         [[''/usr/bin/env'', ''rucio'', ''-v'', ''upload'', ''--summary'', ''--no-register'',
           ''--guid'', ''G'', ''--rse'', ''EP2'', ''--scope'', ''s'', ''log.tgz'']]))
   \<and> monitor_failed_data_in 1 (world_exit 0) messages
        ((empty_pipeline (job_101\<lparr>state := ''failed''\<rparr>))\<lparr>failed_data_in := [0]\<rparr>)
     = Some (Inr ((empty_pipeline (job_101\<lparr>state := ''failed''\<rparr>))
          \<lparr>jobs := (jobs (empty_pipeline (job_101\<lparr>state := ''failed''\<rparr>)))
                     (0 := job_101\<lparr>stageout := ''log'', fileinfodict := Some [],
                                    state := ''finished''\<rparr>),
            failed_jobs := [0]\<rparr>))"
  by (simp add: set_pilot_state_def stage_out_all_def build_outputs_def prepare_log_def
        world_exit_def world_with_def job_101_def job_202_def monitor_failed_data_in_def
        empty_pipeline_def stage_out_exits summary_entry_def summary_202_def stage_out_argv_def
        first_endpoint_def)

end
